theory Spec2Isabelle
  imports Complex_Main "HOL-Library.Sublist" "HOL-Library.AList"
begin

section \<open>Python values used by \<^verbatim>\<open>scripts/data/prove_pow.py\<close>\<close>

text \<open>
  Python strings are modelled as \<^typ>\<open>string\<close>; a \<^typ>\<open>char\<close> stands for one code point
  below 256, so the two line boundaries U+2028 and U+2029 of \<^verbatim>\<open>str.splitlines\<close> lie
  outside the model.  Times are reals where the script has floats.
\<close>

subsection \<open>Strings\<close>

definition digit_char :: "nat \<Rightarrow> char" where
  "digit_char d = ''0123456789'' ! d"

function str_nat :: "nat \<Rightarrow> string" where
  "str_nat n = (if n < 10 then [digit_char n] else str_nat (n div 10) @ [digit_char (n mod 10)])"
  by pat_completeness auto
termination
  by (relation "measure id") auto

declare str_nat.simps [simp del]

text \<open>\<^verbatim>\<open>str(i)\<close> for a Python int.\<close>

definition str_int :: "int \<Rightarrow> string" where
  "str_int i = (if i < 0 then CHR ''-'' # str_nat (nat (- i)) else str_nat (nat i))"

definition is_digit :: "char \<Rightarrow> bool" where
  "is_digit c = (48 \<le> (of_char c :: nat) \<and> (of_char c :: nat) \<le> 57)"

text \<open>\<^verbatim>\<open>int(s)\<close> on a string of decimal digits (most significant first).\<close>

definition int_of_digits :: "string \<Rightarrow> nat" where
  "int_of_digits ds = foldl (\<lambda>acc c. 10 * acc + ((of_char c :: nat) - 48)) 0 ds"

text \<open>\<^verbatim>\<open>line.startswith(p)\<close> and \<^verbatim>\<open>p in line\<close>.\<close>

definition startswith :: "string \<Rightarrow> string \<Rightarrow> bool" where
  "startswith line p = prefix p line"

fun str_in :: "string \<Rightarrow> string \<Rightarrow> bool" where
  "str_in p [] = (p = [])"
| "str_in p (c # cs) = (prefix p (c # cs) \<or> str_in p cs)"

text \<open>\<^verbatim>\<open>sep.join(xs)\<close>.\<close>

fun str_join :: "string \<Rightarrow> string list \<Rightarrow> string" where
  "str_join sep [] = []"
| "str_join sep [x] = x"
| "str_join sep (x # y # ys) = x @ sep @ str_join sep (y # ys)"

text \<open>
  \<^verbatim>\<open>str.splitlines()\<close>: a line ends at LF, VT, FF, CR, CR LF, FS, GS, RS or NEL; the
  boundary is dropped, and a boundary at the very end opens no further line.
\<close>

definition is_linebreak :: "char \<Rightarrow> bool" where
  "is_linebreak c = (c \<in> set [CHR 0x0A, CHR 0x0B, CHR 0x0C, CHR 0x0D,
                               CHR 0x1C, CHR 0x1D, CHR 0x1E, CHR 0x85])"

fun splitlines_from :: "string \<Rightarrow> string \<Rightarrow> string list" where
  "splitlines_from cur [] = (if cur = [] then [] else [cur])"
| "splitlines_from cur [c] = (if is_linebreak c then [cur] else [cur @ [c]])"
| "splitlines_from cur (c # d # cs) =
     (if c = CHR 0x0D \<and> d = CHR 0x0A then
        (if cs = [] then [cur] else cur # splitlines_from [] cs)
      else if is_linebreak c then cur # splitlines_from [] (d # cs)
      else splitlines_from (cur @ [c]) (d # cs))"

definition splitlines :: "string \<Rightarrow> string list" where
  "splitlines s = splitlines_from [] s"

subsection \<open>Exceptions\<close>

text \<open>
  The instances of \<^verbatim>\<open>Exception\<close> that the script can meet, each with its message.
  \<^verbatim>\<open>TimeoutExpired\<close> is a value of the outcome of \<^verbatim>\<open>subprocess.run\<close> below.
\<close>

datatype pyexc =
    RuntimeError string
  | OSError string
  | KeyError string
  | TypeError string
  | ValueError string
  | IndexError string
  | OtherException string

fun exc_message :: "pyexc \<Rightarrow> string" where
  "exc_message (RuntimeError m) = m"
| "exc_message (OSError m) = m"
| "exc_message (KeyError m) = m"
| "exc_message (TypeError m) = m"
| "exc_message (ValueError m) = m"
| "exc_message (IndexError m) = m"
| "exc_message (OtherException m) = m"

subsection \<open>The step result\<close>

record StepInfo =
  step :: string
  stdout :: string
  stderr :: string
  returncode :: int
  elapsed :: real
  max_memory :: "nat option"

section \<open>The world outside the script\<close>

text \<open>
  A path is the tuple of its \<^verbatim>\<open>pathlib\<close> parts; the file system is an association list
  from paths to nodes, in the order in which the operating system enumerates entries.
  Two distinct part lists are distinct files: symbolic links and \<^verbatim>\<open>..\<close> are not resolved.
  What is stated below about deletion therefore speaks of the paths that \<^verbatim>\<open>unlink\<close> is called
  on and of the existence of those paths, not of other names a file may have.
\<close>

type_synonym path = "string list"

datatype node = File string | Dir

type_synonym fsys = "(path \<times> node) list"

datatype level = DEBUG | INFO | WARNING | ERROR

text \<open>What the script does to the outside, in order.\<close>

datatype effect =
    Spawn "string list"
  | Write path
  | Unlink path
  | Mkdir path

record world =
  fs :: fsys
  now :: real
  logged :: "(level \<times> string) list"
  effects :: "effect list"

text \<open>How one call of \<^verbatim>\<open>subprocess.run(..., check=False, timeout=t)\<close> ends.\<close>

datatype proc_outcome =
    Exited string string int
  | TimeoutExpired
  | SpawnFailed pyexc

datatype json =
    JNull
  | JBool bool
  | JInt int
  | JFloat real
  | JStr string
  | JArr "json list"
  | JObj "(string \<times> json) list"

text \<open>
  The collaborators the script imports or calls: the platform name, the child processes
  (their output, what they do to the files, and the seconds they take), the data and
  argument generators, the library routines whose text output is not modelled, and the
  paths whose deletion the operating system refuses.
\<close>

record env =
  platform_system :: string
  subprocess_run :: "string list \<Rightarrow> int option \<Rightarrow> fsys \<Rightarrow> proc_outcome \<times> fsys \<times> real"
  generate_data :: "string \<Rightarrow> int \<Rightarrow> int \<Rightarrow> bool \<Rightarrow> pyexc + json"
  generate_assumevalid_args :: "fsys \<Rightarrow> path \<Rightarrow> path option \<Rightarrow> pyexc + json"
  json_dumps :: "json \<Rightarrow> nat option \<Rightarrow> string"
  json_load :: "string \<Rightarrow> pyexc + json"
  isoformat_now :: "real \<Rightarrow> string"
  fmt_fixed :: "nat \<Rightarrow> real \<Rightarrow> string"
  format_exc :: "pyexc \<Rightarrow> string"
  unlink_denied :: "path \<Rightarrow> bool"

definition log_msg :: "level \<Rightarrow> string \<Rightarrow> world \<Rightarrow> world" where
  "log_msg lv m w = w\<lparr>logged := logged w @ [(lv, m)]\<rparr>"

definition emit :: "effect \<Rightarrow> world \<Rightarrow> world" where
  "emit e w = w\<lparr>effects := effects w @ [e]\<rparr>"

section \<open>Step runner: \<^verbatim>\<open>run\<close>\<close>

text \<open>
  \<^verbatim>\<open>re.search(r"Maximum resident set size \(kbytes\): (\d+)", s)\<close> followed by
  \<^verbatim>\<open>int(m.group(1))\<close>: the leftmost place where the literal is followed by a digit, and
  the longest run of digits there.
\<close>

definition max_mem_literal :: string where
  "max_mem_literal = ''Maximum resident set size (kbytes): ''"

fun search_max_mem :: "string \<Rightarrow> nat option" where
  "search_max_mem [] = None"
| "search_max_mem (c # cs) =
     (let ds = takeWhile is_digit (drop (length max_mem_literal) (c # cs))
      in if prefix max_mem_literal (c # cs) \<and> ds \<noteq> [] then Some (int_of_digits ds)
         else search_max_mem cs)"

text \<open>The test of lines 117-127 on one line of the captured error stream.\<close>

definition is_time_line :: "string \<Rightarrow> bool" where
  "is_time_line line =
     (startswith line [CHR 0x09]
      \<or> str_in ''Maximum resident set size'' line
      \<or> str_in ''Command being timed'' line
      \<or> str_in ''User time'' line
      \<or> str_in ''System time'' line
      \<or> str_in ''Percent of CPU'' line
      \<or> str_in ''Elapsed (wall clock) time'' line
      \<or> str_in ''Average'' line
      \<or> str_in ''Exit status'' line)"

text \<open>The loop of lines 114-130: returns \<^verbatim>\<open>(time_lines, actual_stderr)\<close>.\<close>

fun partition_stderr :: "string list \<Rightarrow> string list \<Rightarrow> string list \<Rightarrow> string list \<times> string list" where
  "partition_stderr [] time_lines actual_stderr = (time_lines, actual_stderr)"
| "partition_stderr (line # rest) time_lines actual_stderr =
     (if is_time_line line then partition_stderr rest (time_lines @ [line]) actual_stderr
      else partition_stderr rest time_lines (actual_stderr @ [line]))"

definition clean_stderr :: "string \<Rightarrow> string" where
  "clean_stderr err = str_join [CHR 0x0A] (snd (partition_stderr (splitlines err) [] []))"

text \<open>
  \<^verbatim>\<open>run(cmd, timeout)\<close>: the platform check, then \<^verbatim>\<open>/usr/bin/time -v\<close> before the command.
  The result is \<^verbatim>\<open>(stdout, stderr, returncode, elapsed, max_memory)\<close>; only
  \<^verbatim>\<open>TimeoutExpired\<close> is handled, any other exception of \<^verbatim>\<open>subprocess.run\<close> leaves \<^verbatim>\<open>run\<close>.
\<close>

type_synonym run_result = "string \<times> string \<times> int \<times> real \<times> nat option"

definition time_cmd :: "string list \<Rightarrow> string list" where
  "time_cmd cmd = [''/usr/bin/time'', ''-v''] @ cmd"

definition timeout_str :: "int option \<Rightarrow> string" where
  "timeout_str t = (case t of None \<Rightarrow> ''None'' | Some n \<Rightarrow> str_int n)"

definition run :: "env \<Rightarrow> string list \<Rightarrow> int option \<Rightarrow> world \<Rightarrow> (pyexc + run_result) \<times> world" where
  "run ev cmd timeout w =
     (if platform_system ev \<noteq> ''Linux'' then
        (Inl (RuntimeError ''This script only supports Linux for timing and memory measurement.''), w)
      else
        let start_time = now w;
            (outcome, fs', dt) = subprocess_run ev (time_cmd cmd) timeout (fs w);
            w1 = emit (Spawn (time_cmd cmd)) (w\<lparr>fs := fs', now := now w + dt\<rparr>)
        in case outcome of
             Exited out err rc \<Rightarrow>
               (Inr (out, clean_stderr err, rc, now w1 - start_time, search_max_mem err), w1)
           | TimeoutExpired \<Rightarrow>
               (Inr ([], ''Process timed out after '' @ timeout_str timeout @ '' seconds'',
                     - 1, now w1 - start_time, None), w1)
           | SpawnFailed e \<Rightarrow> (Inl e, w1))"

section \<open>Paths and files\<close>

definition NL :: string where
  "NL = [CHR 0x0A]"

fun split_slash :: "string \<Rightarrow> string \<Rightarrow> string list" where
  "split_slash cur [] = [cur]"
| "split_slash cur (c # cs) =
     (if c = CHR ''/'' then cur # split_slash [] cs else split_slash (cur @ [c]) cs)"

definition is_anchor :: "string \<Rightarrow> bool" where
  "is_anchor s = (s = ''/'' \<or> s = ''//'')"

text \<open>\<^verbatim>\<open>Path(s)\<close>: empty parts and \<^verbatim>\<open>.\<close> parts vanish, a leading slash is the anchor.\<close>

definition path_of_str :: "string \<Rightarrow> path" where
  "path_of_str s =
     (if prefix ''//'' s \<and> \<not> prefix ''///'' s then [''//'']
      else if prefix ''/'' s then [''/'']
      else [])
     @ filter (\<lambda>part. part \<noteq> [] \<and> part \<noteq> ''.'') (split_slash [] s)"

text \<open>\<^verbatim>\<open>str(p)\<close>, \<^verbatim>\<open>p.parent\<close>, and \<^verbatim>\<open>p / name\<close> for a name of one part.\<close>

definition path_str :: "path \<Rightarrow> string" where
  "path_str p =
     (case p of [] \<Rightarrow> ''.''
      | a # rest \<Rightarrow> if is_anchor a then a @ str_join ''/'' rest else str_join ''/'' p)"

definition is_top :: "path \<Rightarrow> bool" where
  "is_top p = (case p of [] \<Rightarrow> True | [a] \<Rightarrow> is_anchor a | _ \<Rightarrow> False)"

definition parent :: "path \<Rightarrow> path" where
  "parent p = (if is_top p then p else butlast p)"

definition path_div :: "path \<Rightarrow> string \<Rightarrow> path" where
  "path_div p name = p @ [name]"

text \<open>The working directory and the root always exist and are directories.\<close>

definition path_exists :: "fsys \<Rightarrow> path \<Rightarrow> bool" where
  "path_exists f p = (is_top p \<or> map_of f p \<noteq> None)"

definition is_dir :: "fsys \<Rightarrow> path \<Rightarrow> bool" where
  "is_dir f p = (is_top p \<or> map_of f p = Some Dir)"

text \<open>\<^verbatim>\<open>open(p, "w")\<close> with the text written, and \<^verbatim>\<open>open(p, "r").read()\<close>.\<close>

definition write_file :: "path \<Rightarrow> string \<Rightarrow> fsys \<Rightarrow> pyexc + fsys" where
  "write_file p txt f =
     (if is_dir f p then Inl (OSError ''IsADirectoryError'')
      else if \<not> is_dir f (parent p) then Inl (OSError ''FileNotFoundError'')
      else Inr (AList.update p (File txt) f))"

definition read_file :: "path \<Rightarrow> fsys \<Rightarrow> pyexc + string" where
  "read_file p f =
     (if is_dir f p then Inl (OSError ''IsADirectoryError'')
      else case map_of f p of
             Some (File txt) \<Rightarrow> Inr txt
           | _ \<Rightarrow> Inl (OSError ''FileNotFoundError''))"

text \<open>
  \<^verbatim>\<open>p.unlink()\<close>, which fails on a directory, on a missing path and where the operating
  system refuses; and \<^verbatim>\<open>p.mkdir(exist_ok=True)\<close>.
\<close>

definition unlink :: "env \<Rightarrow> path \<Rightarrow> fsys \<Rightarrow> pyexc + fsys" where
  "unlink ev p f =
     (if is_dir f p then Inl (OSError ''IsADirectoryError'')
      else if \<not> path_exists f p then Inl (OSError ''FileNotFoundError'')
      else if unlink_denied ev p then Inl (OSError ''PermissionError'')
      else Inr (AList.delete p f))"

definition mkdir_exist_ok :: "path \<Rightarrow> world \<Rightarrow> (pyexc + unit) \<times> world" where
  "mkdir_exist_ok p w =
     (if is_dir (fs w) p then (Inr (), w)
      else if path_exists (fs w) p then (Inl (OSError ''FileExistsError''), w)
      else if \<not> is_dir (fs w) (parent p) then (Inl (OSError ''FileNotFoundError''), w)
      else (Inr (), emit (Mkdir p) (w\<lparr>fs := fs w @ [(p, Dir)]\<rparr>)))"

definition write_text :: "path \<Rightarrow> string \<Rightarrow> world \<Rightarrow> (pyexc + unit) \<times> world" where
  "write_text p txt w =
     (case write_file p txt (fs w) of
        Inl e \<Rightarrow> (Inl e, w)
      | Inr f' \<Rightarrow> (Inr (), emit (Write p) (w\<lparr>fs := f'\<rparr>)))"

subsection \<open>Per-step log: \<^verbatim>\<open>save_prover_log\<close>\<close>

text \<open>
  \<^verbatim>\<open>s.lower()\<close> on ASCII letters; the script applies it to the three step names only.
\<close>

definition lower_char :: "char \<Rightarrow> char" where
  "lower_char c =
     (case map_of (zip ''ABCDEFGHIJKLMNOPQRSTUVWXYZ'' ''abcdefghijklmnopqrstuvwxyz'') c of
        Some l \<Rightarrow> l
      | None \<Rightarrow> c)"

definition str_lower :: "string \<Rightarrow> string" where
  "str_lower s = map lower_char s"

definition log_path :: "path \<Rightarrow> string \<Rightarrow> path" where
  "log_path batch_dir step_name = path_div batch_dir (str_lower step_name @ ''.log'')"

definition prover_log_text :: "env \<Rightarrow> real \<Rightarrow> string \<Rightarrow> run_result \<Rightarrow> string" where
  "prover_log_text ev t step_name r =
     (case r of (out, err, rc, el, mm) \<Rightarrow>
        ''=== '' @ step_name @ '' STEP LOG ==='' @ NL
        @ ''Timestamp: '' @ isoformat_now ev t @ NL
        @ ''Return Code: '' @ str_int rc @ NL
        @ ''Execution Time: '' @ fmt_fixed ev 2 el @ '' seconds'' @ NL
        @ (case mm of None \<Rightarrow> []
           | Some m \<Rightarrow> ''Max Memory Usage: '' @ fmt_fixed ev 1 (real m / 1024) @ '' MB'' @ NL)
        @ NL
        @ (if out \<noteq> [] then ''=== STDOUT ==='' @ NL @ out @ NL else [])
        @ (if err \<noteq> [] then ''=== STDERR ==='' @ NL @ err @ NL else []))"

definition save_prover_log ::
  "env \<Rightarrow> path \<Rightarrow> string \<Rightarrow> run_result \<Rightarrow> world \<Rightarrow> (pyexc + unit) \<times> world" where
  "save_prover_log ev batch_dir step_name r w =
     write_text (log_path batch_dir step_name) (prover_log_text ev (now w) step_name r) w"

section \<open>Pipeline driver: \<^verbatim>\<open>run_prover\<close>\<close>

definition pie_cmd :: "string \<Rightarrow> path \<Rightarrow> string \<Rightarrow> string list" where
  "pie_cmd arguments pie_file executable =
     [''cairo-execute'', ''--layout'', ''all_cairo_stwo'', ''--args-file'', arguments,
      ''--prebuilt'', ''--output-path'', path_str pie_file, executable]"

definition bootload_cmd :: "path \<Rightarrow> path \<Rightarrow> string list" where
  "bootload_cmd pie_file batch_dir =
     [''stwo-bootloader'', ''--pie'', path_str pie_file, ''--output-path'', path_str batch_dir]"

definition prove_cmd :: "path \<Rightarrow> path \<Rightarrow> string \<Rightarrow> string list" where
  "prove_cmd priv_json pub_json proof =
     [''adapted_stwo'', ''--priv_json'', path_str priv_json, ''--pub_json'', path_str pub_json,
      ''--params_json'', ''../../packages/assumevalid/prover_params.json'',
      ''--proof_path'', proof, ''--proof-format'', ''cairo-serde'', ''--verify'']"

definition mk_step :: "string \<Rightarrow> run_result \<Rightarrow> StepInfo" where
  "mk_step name r =
     (case r of (out, err, rc, el, mm) \<Rightarrow>
        \<lparr>step = name, stdout = out, stderr = err, returncode = rc, elapsed = el, max_memory = mm\<rparr>)"

text \<open>
  The block each of the three steps repeats (lines 197-210, 222-237, 257-271): log the
  command, \<^verbatim>\<open>run\<close> it, build the \<^verbatim>\<open>StepInfo\<close>, write the step's log file.
\<close>

definition run_and_log ::
  "env \<Rightarrow> string \<Rightarrow> path \<Rightarrow> string \<Rightarrow> string list \<Rightarrow> world \<Rightarrow> (pyexc + StepInfo) \<times> world" where
  "run_and_log ev job_info batch_dir name cmd w =
     (let w1 = log_msg DEBUG (job_info @ '' ['' @ name @ ''] command:'' @ NL @ str_join '' '' cmd) w
      in case run ev cmd None w1 of
           (Inl e, w2) \<Rightarrow> (Inl e, w2)
         | (Inr r, w2) \<Rightarrow>
             (case save_prover_log ev batch_dir name r w2 of
                (Inl e, w3) \<Rightarrow> (Inl e, w3)
              | (Inr u, w3) \<Rightarrow> (Inr (mk_step name r), w3)))"

subsection \<open>Cleanup of the intermediate files (lines 273-298)\<close>

text \<open>\<^verbatim>\<open>k in d\<close>, \<^verbatim>\<open>d[k]\<close> and \<^verbatim>\<open>Path(v)\<close> on a decoded JSON value.\<close>

fun py_contains :: "json \<Rightarrow> string \<Rightarrow> pyexc + bool" where
  "py_contains (JObj kvs) k = Inr (k \<in> set (map fst kvs))"
| "py_contains (JArr xs) k = Inr (JStr k \<in> set xs)"
| "py_contains (JStr s) k = Inr (str_in k s)"
| "py_contains v k = Inl (TypeError ''argument is not iterable'')"

fun py_getitem :: "json \<Rightarrow> string \<Rightarrow> pyexc + json" where
  "py_getitem (JObj kvs) k = (case map_of kvs k of None \<Rightarrow> Inl (KeyError k) | Some v \<Rightarrow> Inr v)"
| "py_getitem (JArr xs) k = Inl (TypeError ''list indices must be integers or slices, not str'')"
| "py_getitem (JStr s) k = Inl (TypeError ''string indices must be integers'')"
| "py_getitem v k = Inl (TypeError ''object is not subscriptable'')"

fun path_of_json :: "json \<Rightarrow> pyexc + path" where
  "path_of_json (JStr s) = Inr (path_of_str s)"
| "path_of_json v = Inl (TypeError ''expected str, bytes or os.PathLike object'')"

text \<open>\<^verbatim>\<open>if k in priv_data: temp_files.append(Path(priv_data[k]))\<close>: the paths appended.\<close>

definition referenced_path :: "json \<Rightarrow> string \<Rightarrow> pyexc + path list" where
  "referenced_path priv_data k =
     (case py_contains priv_data k of
        Inl e \<Rightarrow> Inl e
      | Inr False \<Rightarrow> Inr []
      | Inr True \<Rightarrow>
          (case py_getitem priv_data k of
             Inl e \<Rightarrow> Inl e
           | Inr v \<Rightarrow> (case path_of_json v of Inl e \<Rightarrow> Inl e | Inr p \<Rightarrow> Inr [p])))"

text \<open>
  Lines 277-290: what is appended to \<^verbatim>\<open>temp_files\<close> after \<^verbatim>\<open>[pie_file, pub_json]\<close>, and the
  exception the \<^verbatim>\<open>except\<close> branch has caught, if any.
\<close>

definition priv_temp_files :: "env \<Rightarrow> fsys \<Rightarrow> path \<Rightarrow> path list \<times> pyexc option" where
  "priv_temp_files ev f priv_json =
     (if \<not> path_exists f priv_json then ([], None)
      else case read_file priv_json f of
        Inl e \<Rightarrow> ([priv_json], Some e)
      | Inr txt \<Rightarrow>
     (case json_load ev txt of
        Inl e \<Rightarrow> ([priv_json], Some e)
      | Inr priv_data \<Rightarrow>
     (case referenced_path priv_data ''trace_path'' of
        Inl e \<Rightarrow> ([priv_json], Some e)
      | Inr tp \<Rightarrow>
     (case referenced_path priv_data ''memory_path'' of
        Inl e \<Rightarrow> (tp @ [priv_json], Some e)
      | Inr mp \<Rightarrow> (tp @ mp @ [priv_json], None)))))"

definition temp_files :: "env \<Rightarrow> fsys \<Rightarrow> path \<Rightarrow> path list" where
  "temp_files ev f batch_dir =
     [path_div batch_dir ''pie.cairo_pie.zip'', path_div batch_dir ''pub.json'']
     @ fst (priv_temp_files ev f (path_div batch_dir ''priv.json''))"

text \<open>Lines 292-298: best-effort deletion, a failure is logged and the loop goes on.\<close>

fun unlink_all :: "env \<Rightarrow> path list \<Rightarrow> world \<Rightarrow> world" where
  "unlink_all ev [] w = w"
| "unlink_all ev (temp_file # rest) w =
     (if path_exists (fs w) temp_file then
        (case unlink ev temp_file (fs w) of
           Inr f' \<Rightarrow>
             unlink_all ev rest
               (log_msg DEBUG (''Cleaned up temporary file: '' @ path_str temp_file)
                  (emit (Unlink temp_file) (w\<lparr>fs := f'\<rparr>)))
         | Inl e \<Rightarrow>
             unlink_all ev rest
               (log_msg WARNING
                  (''Failed to clean up '' @ path_str temp_file @ '': '' @ exc_message e) w))
      else unlink_all ev rest w)"

definition cleanup :: "env \<Rightarrow> path \<Rightarrow> world \<Rightarrow> world" where
  "cleanup ev batch_dir w =
     (let priv_json = path_div batch_dir ''priv.json'';
          w1 = (case snd (priv_temp_files ev (fs w) priv_json) of
                  None \<Rightarrow> w
                | Some e \<Rightarrow>
                    log_msg WARNING
                      (''Failed to parse '' @ path_str priv_json @ '' for cleanup: '' @ exc_message e) w)
      in unlink_all ev (temp_files ev (fs w) batch_dir) w1)"

subsection \<open>The three steps\<close>

definition prove_stage ::
  "env \<Rightarrow> string \<Rightarrow> path \<Rightarrow> string \<Rightarrow> StepInfo list \<Rightarrow> world \<Rightarrow> (pyexc + StepInfo list) \<times> world" where
  "prove_stage ev job_info batch_dir proof steps_info w =
     (case run_and_log ev job_info batch_dir ''PROVE''
             (prove_cmd (path_div batch_dir ''priv.json'') (path_div batch_dir ''pub.json'') proof) w of
        (Inl e, w1) \<Rightarrow> (Inl e, w1)
      | (Inr info, w1) \<Rightarrow>
          (Inr (steps_info @ [info]),
           if returncode info = 0 then cleanup ev batch_dir w1 else w1))"

definition bootload_stage ::
  "env \<Rightarrow> string \<Rightarrow> path \<Rightarrow> string \<Rightarrow> StepInfo list \<Rightarrow> world \<Rightarrow> (pyexc + StepInfo list) \<times> world" where
  "bootload_stage ev job_info batch_dir proof steps_info w =
     (case run_and_log ev job_info batch_dir ''BOOTLOAD''
             (bootload_cmd (path_div batch_dir ''pie.cairo_pie.zip'') batch_dir) w of
        (Inl e, w1) \<Rightarrow> (Inl e, w1)
      | (Inr info, w1) \<Rightarrow>
          if returncode info \<noteq> 0 then
            (Inr (steps_info @ [info]),
             log_msg ERROR
               (job_info @ '' [BOOTLOAD] error: ''
                @ (if stdout info \<noteq> [] then stdout info else stderr info)) w1)
          else prove_stage ev job_info batch_dir proof (steps_info @ [info]) w1)"

definition run_prover ::
  "env \<Rightarrow> string \<Rightarrow> string \<Rightarrow> string \<Rightarrow> string \<Rightarrow> world \<Rightarrow> (pyexc + StepInfo list) \<times> world" where
  "run_prover ev job_info executable proof arguments w =
     (let batch_dir = parent (path_of_str proof)
      in case run_and_log ev job_info batch_dir ''PIE''
                (pie_cmd arguments (path_div batch_dir ''pie.cairo_pie.zip'') executable) w of
           (Inl e, w1) \<Rightarrow> (Inl e, w1)
         | (Inr info, w1) \<Rightarrow>
             if returncode info \<noteq> 0 then (Inr [info], w1)
             else bootload_stage ev job_info batch_dir proof [info] w1)"

section \<open>Batch job: \<^verbatim>\<open>prove_batch\<close>\<close>

text \<open>
  The parameter \<^verbatim>\<open>step\<close> of \<^verbatim>\<open>prove_batch\<close> and \<^verbatim>\<open>main\<close> is written \<open>step_size\<close>, since \<open>step\<close>
  is the field of \<^typ>\<open>StepInfo\<close>.
\<close>

definition PROOF_DIR :: path where
  "PROOF_DIR = [''.proofs'']"

text \<open>
  The entries of a directory in the order of enumeration, and \<^verbatim>\<open>p.name\<close>.
\<close>

definition children :: "fsys \<Rightarrow> path \<Rightarrow> path list" where
  "children f d = filter (\<lambda>p. \<not> is_top p \<and> butlast p = d) (map fst f)"

definition path_name :: "path \<Rightarrow> string" where
  "path_name p = (if is_top p then [] else last p)"

text \<open>
  \<^verbatim>\<open>PROOF_DIR.glob(f"{mode}_*_to_{height}")\<close>: the star stands for any run of characters,
  files and directories are both yielded, and a missing directory yields nothing.
\<close>

definition glob_match :: "string \<Rightarrow> int \<Rightarrow> string \<Rightarrow> bool" where
  "glob_match mode height name =
     (let pre = mode @ ''_''; suf = ''_to_'' @ str_int height
      in prefix pre name \<and> suffix suf name \<and> length pre + length suf \<le> length name)"

definition glob_batches :: "fsys \<Rightarrow> string \<Rightarrow> int \<Rightarrow> path list" where
  "glob_batches f mode height =
     (if is_dir f PROOF_DIR
      then filter (\<lambda>p. glob_match mode height (path_name p)) (children f PROOF_DIR)
      else [])"

text \<open>The loop of lines 320-323, with the variable \<^verbatim>\<open>previous_proof_file\<close> as accumulator.\<close>

fun scan_previous :: "fsys \<Rightarrow> path list \<Rightarrow> path option \<Rightarrow> path option" where
  "scan_previous f [] previous_proof_file = previous_proof_file"
| "scan_previous f (proof_dir # rest) previous_proof_file =
     (let candidate = path_div proof_dir ''proof.json''
      in if path_exists f candidate then Some candidate
         else scan_previous f rest (Some candidate))"

text \<open>Lines 317-323: the value of \<^verbatim>\<open>previous_proof_file\<close> after the search.\<close>

definition previous_proof :: "fsys \<Rightarrow> string \<Rightarrow> int \<Rightarrow> path option" where
  "previous_proof f mode height =
     (if height > 0 then scan_previous f (glob_batches f mode height) None else None)"

definition job_info_of :: "int \<Rightarrow> int \<Rightarrow> string" where
  "job_info_of height step_size =
     ''Job(height='' @ [CHR 0x27] @ str_int height @ [CHR 0x27] @ '', blocks='' @ str_int step_size @ '')''"

definition batch_dir_of :: "string \<Rightarrow> int \<Rightarrow> int \<Rightarrow> path" where
  "batch_dir_of mode height step_size =
     path_div PROOF_DIR (mode @ ''_'' @ str_int height @ ''_to_'' @ str_int (height + step_size))"

text \<open>
  Lines 311-346 of the \<^verbatim>\<open>try\<close> block: the directory, the previous proof, the data and
  argument files.
\<close>

definition prepare_batch :: "env \<Rightarrow> int \<Rightarrow> int \<Rightarrow> world \<Rightarrow> (pyexc + unit) \<times> world" where
  "prepare_batch ev height step_size w =
     (let mode = ''light'';
          job_info = job_info_of height step_size;
          batch_dir = batch_dir_of mode height step_size
      in case mkdir_exist_ok batch_dir w of
        (Inl e, w1) \<Rightarrow> (Inl e, w1)
      | (Inr u, w1) \<Rightarrow>
     (let previous_proof_file = previous_proof (fs w1) mode height;
          w2 = log_msg DEBUG (job_info @ '' generating data...'') w1;
          batch_file = path_div batch_dir ''batch.json''
      in case generate_data ev mode height step_size True of
        Inl e \<Rightarrow> (Inl e, w2)
      | Inr batch_data \<Rightarrow>
     (case py_getitem batch_data ''chain_state'' of
        Inl e \<Rightarrow> (Inl e, w2)
      | Inr chain_state \<Rightarrow>
     (case py_getitem batch_data ''blocks'' of
        Inl e \<Rightarrow> (Inl e, w2)
      | Inr blocks \<Rightarrow>
     (case write_text batch_file
             (json_dumps ev (JObj [(''chain_state'', chain_state), (''blocks'', blocks)]) (Some 2)) w2 of
        (Inl e, w3) \<Rightarrow> (Inl e, w3)
      | (Inr u, w3) \<Rightarrow>
     (let w4 = log_msg DEBUG (job_info @ '' generating args...'') w3
      in case generate_assumevalid_args ev (fs w4) batch_file previous_proof_file of
        Inl e \<Rightarrow> (Inl e, w4)
      | Inr args \<Rightarrow>
          write_text (path_div batch_dir ''arguments.json'') (json_dumps ev args None) w4))))))"

text \<open>Lines 356-388: totals, the read of the last step, the verdict.\<close>

definition mem_usage :: "env \<Rightarrow> nat option \<Rightarrow> string" where
  "mem_usage ev m = (case m of None \<Rightarrow> ''N/A'' | Some k \<Rightarrow> fmt_fixed ev 1 (real k / 1024) @ '' MB'')"

definition max_memory_of :: "StepInfo list \<Rightarrow> nat option" where
  "max_memory_of steps_info =
     (case List.map_filter max_memory steps_info of
        [] \<Rightarrow> None
      | m # ms \<Rightarrow> Some (foldl max m ms))"

definition finish_batch :: "env \<Rightarrow> string \<Rightarrow> StepInfo list \<Rightarrow> world \<Rightarrow> (pyexc + bool) \<times> world" where
  "finish_batch ev job_info steps_info w =
     (let total_elapsed = sum_list (map elapsed steps_info);
          max_mem = max_memory_of steps_info
      in if steps_info = [] then (Inl (IndexError ''list index out of range''), w)
         else
           let last_step = last steps_info
           in if returncode last_step \<noteq> 0 then
                (Inr False,
                 log_msg ERROR
                   (job_info @ '' error:'' @ NL
                    @ (if stderr last_step \<noteq> [] then stderr last_step else stdout last_step)) w)
              else
                (Inr True,
                 log_msg INFO
                   (job_info @ '' done, total execution time: '' @ fmt_fixed ev 2 total_elapsed
                    @ '' seconds''
                    @ (case max_mem of None \<Rightarrow> []
                       | Some m \<Rightarrow> '', max memory: '' @ fmt_fixed ev 1 (real m / 1024) @ '' MB''))
                   (foldl (\<lambda>w' info.
                      log_msg DEBUG
                        (job_info @ '', ['' @ step info @ ''] time: '' @ fmt_fixed ev 2 (elapsed info)
                         @ '' s max memory: '' @ mem_usage ev (max_memory info)) w')
                      w steps_info)))"

text \<open>The body of the \<^verbatim>\<open>try\<close> block, and \<^verbatim>\<open>prove_batch\<close> with its \<^verbatim>\<open>except Exception\<close>.\<close>

definition prove_batch_body :: "env \<Rightarrow> int \<Rightarrow> int \<Rightarrow> world \<Rightarrow> (pyexc + bool) \<times> world" where
  "prove_batch_body ev height step_size w =
     (let job_info = job_info_of height step_size;
          batch_dir = batch_dir_of ''light'' height step_size
      in case prepare_batch ev height step_size w of
           (Inl e, w1) \<Rightarrow> (Inl e, w1)
         | (Inr u, w1) \<Rightarrow>
             (case run_prover ev job_info ''../../target/proving/assumevalid.executable.json''
                     (path_str (path_div batch_dir ''proof.json''))
                     (path_str (path_div batch_dir ''arguments.json'')) w1 of
                (Inl e, w2) \<Rightarrow> (Inl e, w2)
              | (Inr steps_info, w2) \<Rightarrow> finish_batch ev job_info steps_info w2))"

definition batch_error_msg :: "env \<Rightarrow> string \<Rightarrow> pyexc \<Rightarrow> string" where
  "batch_error_msg ev job_info e =
     job_info @ '' error while processing '' @ job_info @ '':'' @ NL @ exc_message e @ NL
     @ ''stacktrace:'' @ NL @ format_exc ev e"

definition prove_batch :: "env \<Rightarrow> int \<Rightarrow> int \<Rightarrow> world \<Rightarrow> (pyexc + bool) \<times> world" where
  "prove_batch ev height step_size w =
     (let job_info = job_info_of height step_size;
          w0 = log_msg DEBUG (job_info @ '' proving...'') w
      in case prove_batch_body ev height step_size w0 of
           (Inl e, w1) \<Rightarrow> (Inr False, log_msg ERROR (batch_error_msg ev job_info e) w1)
         | (Inr success, w1) \<Rightarrow> (Inr success, w1))"

section \<open>Orchestrator: \<^verbatim>\<open>main\<close>\<close>

text \<open>\<^verbatim>\<open>range(start, stop, step)\<close> as a list.\<close>

definition py_range :: "int \<Rightarrow> int \<Rightarrow> int \<Rightarrow> pyexc + int list" where
  "py_range start stop step_size =
     (if step_size = 0 then Inl (ValueError ''range() arg 3 must not be zero'')
      else if step_size > 0 then
        Inr (map (\<lambda>k. start + int k * step_size) [0 ..< nat ((stop - start + step_size - 1) div step_size)])
      else
        Inr (map (\<lambda>k. start + int k * step_size) [0 ..< nat ((start - stop - step_size - 1) div (- step_size))]))"

text \<open>
  \<^verbatim>\<open>main\<close> returns \<^verbatim>\<open>None\<close> on both ways out; the model returns which way it was, with
  the value of the local \<^verbatim>\<open>processed_count\<close> there.
\<close>

datatype run_end = AllProcessed nat | StoppedAt int nat

fun main_loop :: "env \<Rightarrow> int \<Rightarrow> int list \<Rightarrow> nat \<Rightarrow> world \<Rightarrow> (pyexc + run_end) \<times> world" where
  "main_loop ev processing_step [] processed_count w =
     (Inr (AllProcessed processed_count),
      log_msg INFO
        (''All '' @ str_int (int processed_count) @ '' jobs have been processed successfully'') w)"
| "main_loop ev processing_step (height # rest) processed_count w =
     (case prove_batch ev height processing_step w of
        (Inl e, w1) \<Rightarrow> (Inl e, w1)
      | (Inr success, w1) \<Rightarrow>
          if success then main_loop ev processing_step rest (processed_count + 1) w1
          else
            (Inr (StoppedAt height processed_count),
             log_msg INFO
               (''Job at height: '' @ str_int height @ '' failed, stopping further processing'') w1))"

definition main :: "env \<Rightarrow> int \<Rightarrow> int \<Rightarrow> int \<Rightarrow> world \<Rightarrow> (pyexc + run_end) \<times> world" where
  "main ev start blocks step_size w =
     (let w1 = log_msg INFO
                 (''Initial height: '' @ str_int start @ '', blocks: '' @ str_int blocks
                  @ '', step: '' @ str_int step_size) w
      in case mkdir_exist_ok PROOF_DIR w1 of
           (Inl e, w2) \<Rightarrow> (Inl e, w2)
         | (Inr u, w2) \<Rightarrow>
             (case py_range start (start + blocks) step_size of
                Inl e \<Rightarrow> (Inl e, w2)
              | Inr height_range \<Rightarrow> main_loop ev step_size height_range 0 w2))"

section \<open>Resume locator: \<^verbatim>\<open>auto_detect_start\<close>\<close>

text \<open>
  \<^verbatim>\<open>re.compile(r"light_\d+_to_(\d+)").match(name)\<close> and \<^verbatim>\<open>int(m.group(1))\<close>: the pattern is
  matched at the start of the name, and what follows the second number is not looked at.
\<close>

definition match_end_height :: "string \<Rightarrow> int option" where
  "match_end_height name =
     (if \<not> prefix ''light_'' name then None
      else
        let after_mode = drop (length ''light_'') name;
            start_digits = takeWhile is_digit after_mode;
            after_start = dropWhile is_digit after_mode
        in if start_digits = [] \<or> \<not> prefix ''_to_'' after_start then None
           else
             let end_digits = takeWhile is_digit (drop (length ''_to_'') after_start)
             in if end_digits = [] then None else Some (int (int_of_digits end_digits)))"

text \<open>The loop of lines 437-446.\<close>

fun scan_proof_dirs :: "fsys \<Rightarrow> path list \<Rightarrow> int \<Rightarrow> int" where
  "scan_proof_dirs f [] max_height = max_height"
| "scan_proof_dirs f (proof_dir # rest) max_height =
     (if is_dir f proof_dir then
        (case match_end_height (path_name proof_dir) of
           Some end_height \<Rightarrow>
             if path_exists f (path_div proof_dir ''proof.json'') then
               (if end_height > max_height then scan_proof_dirs f rest end_height
                else scan_proof_dirs f rest max_height)
             else scan_proof_dirs f rest max_height
         | None \<Rightarrow> scan_proof_dirs f rest max_height)
      else scan_proof_dirs f rest max_height)"

definition auto_detect_start :: "fsys \<Rightarrow> pyexc + int" where
  "auto_detect_start f =
     (if \<not> path_exists f PROOF_DIR then Inr 0
      else if \<not> is_dir f PROOF_DIR then Inl (OSError ''NotADirectoryError'')
      else Inr (scan_proof_dirs f (children f PROOF_DIR) 0))"

section \<open>The marker list and sample environments\<close>

text \<open>The textual markers of timing and memory lines, as one list.\<close>

definition timing_markers :: "string list" where
  "timing_markers =
     [''Maximum resident set size'', ''Command being timed'', ''User time'', ''System time'',
      ''Percent of CPU'', ''Elapsed (wall clock) time'', ''Average'', ''Exit status'']"

text \<open>
  A sample environment, a platform name and a behaviour of the child processes given, with
  generators that succeed; and a world with nothing in it.
\<close>

definition example_env ::
  "string \<Rightarrow> (string list \<Rightarrow> int option \<Rightarrow> fsys \<Rightarrow> proc_outcome \<times> fsys \<times> real) \<Rightarrow> env" where
  "example_env plat sp =
     \<lparr>platform_system = plat, subprocess_run = sp,
      generate_data = (\<lambda>mode h n fast. Inr (JObj [(''chain_state'', JNull), (''blocks'', JArr [])])),
      generate_assumevalid_args = (\<lambda>f b p. Inr (JArr [])),
      json_dumps = (\<lambda>j i. ''{}''),
      json_load = (\<lambda>s. Inr (JObj [])),
      isoformat_now = (\<lambda>t. ''T''),
      fmt_fixed = (\<lambda>n x. ''0''),
      format_exc = (\<lambda>e. ''Traceback''),
      unlink_denied = (\<lambda>p. False)\<rparr>"

definition empty_world :: world where
  "empty_world = \<lparr>fs = [], now = 0, logged = [], effects = []\<rparr>"

definition sample_stderr :: string where
  "sample_stderr =
     ''warning: slow'' @ [CHR 0x0A]
     @ [CHR 0x09] @ ''Command being timed: x'' @ [CHR 0x0A]
     @ ''Maximum resident set size (kbytes): 1234'' @ [CHR 0x0A]
     @ ''done''"

section \<open>Reading the effects\<close>

text \<open>The commands spawned, the files written and the files unlinked among some effects.\<close>

fun spawn_of :: "effect \<Rightarrow> string list option" where
  "spawn_of (Spawn c) = Some c"
| "spawn_of e = None"

fun write_of :: "effect \<Rightarrow> path option" where
  "write_of (Write p) = Some p"
| "write_of e = None"

fun unlink_of :: "effect \<Rightarrow> path option" where
  "unlink_of (Unlink p) = Some p"
| "unlink_of e = None"

definition spawns :: "effect list \<Rightarrow> string list list" where
  "spawns es = List.map_filter spawn_of es"

definition writes :: "effect list \<Rightarrow> path list" where
  "writes es = List.map_filter write_of es"

definition unlinks :: "effect list \<Rightarrow> path list" where
  "unlinks es = List.map_filter unlink_of es"

text \<open>The effects a call has added to those of the world it started in.\<close>

definition new_effects :: "world \<Rightarrow> world \<Rightarrow> effect list" where
  "new_effects w w' = drop (length (effects w)) (effects w')"

text \<open>The three commands of the pipeline for a proof path, in order.\<close>

definition pipeline_cmds :: "string \<Rightarrow> string \<Rightarrow> string \<Rightarrow> string list list" where
  "pipeline_cmds executable proof arguments =
     (let batch_dir = parent (path_of_str proof)
      in [pie_cmd arguments (path_div batch_dir ''pie.cairo_pie.zip'') executable,
          bootload_cmd (path_div batch_dir ''pie.cairo_pie.zip'') batch_dir,
          prove_cmd (path_div batch_dir ''priv.json'') (path_div batch_dir ''pub.json'') proof])"

text \<open>A world in which the directory of the batch of heights 0 to 10 exists and is empty.\<close>

definition sample_fs :: fsys where
  "sample_fs = [([''.proofs''], Dir), ([''.proofs'', ''light_0_to_10''], Dir)]"

definition sample_world :: world where
  "sample_world = \<lparr>fs = sample_fs, now = 0, logged = [], effects = []\<rparr>"

definition sample_proof :: string where
  "sample_proof = ''.proofs/light_0_to_10/proof.json''"

section \<open>A sample state for the resume locator\<close>

text \<open>
  Batch 0 to 10 is complete; beside it lies a directory whose name goes on after the second
  number, with a proof file in it.
\<close>

definition backup_fs :: fsys where
  "backup_fs =
     [([''.proofs''], Dir),
      ([''.proofs'', ''light_0_to_10''], Dir),
      ([''.proofs'', ''light_0_to_10'', ''proof.json''], File ''proof''),
      ([''.proofs'', ''light_0_to_99.bak''], Dir),
      ([''.proofs'', ''light_0_to_99.bak'', ''proof.json''], File ''proof'')]"

section \<open>Sample runs of the batch job and the orchestrator\<close>


text \<open>
  The batch directory is there and none of its entries is a directory: the files of the
  batch can be written.
\<close>

definition batch_dir_ready :: "fsys \<Rightarrow> path \<Rightarrow> bool" where
  "batch_dir_ready f bd = (bd \<noteq> [] \<and> is_dir f bd \<and> (\<forall>n. \<not> is_dir f (bd @ [n])))"

text \<open>
  Environments: one whose processes all exit with 0 and leave the files alone, on a given
  platform; one whose data generator raises; one whose data generator raises at height 20
  only.  And a world that holds the empty directory \<^verbatim>\<open>.proofs\<close>.
\<close>

definition quiet_env :: "string \<Rightarrow> env" where
  "quiet_env plat = example_env plat (\<lambda>c t f. (Exited [] [] 0, f, 1))"

definition no_data_env :: env where
  "no_data_env =
     (quiet_env ''Linux'')\<lparr>generate_data := (\<lambda>mode h n fast. Inl (OtherException ''rpc down''))\<rparr>"

definition no_data_at_20_env :: env where
  "no_data_at_20_env =
     (quiet_env ''Linux'')\<lparr>generate_data :=
        (\<lambda>mode h n fast. if h = 20 then Inl (OtherException ''rpc down'')
                          else Inr (JObj [(''chain_state'', JNull), (''blocks'', JArr [])]))\<rparr>"

definition proofs_only_world :: world where
  "proofs_only_world = \<lparr>fs = [([''.proofs''], Dir)], now = 0, logged = [], effects = []\<rparr>"

text \<open>That world after the first message of \<^verbatim>\<open>main 0 60 20\<close>.\<close>

definition sample_start_world :: world where
  "sample_start_world
   = log_msg INFO (''Initial height: 0, blocks: 60, step: 20'') proofs_only_world"

section \<open>A sample batch with all its intermediate files\<close>

text \<open>
  The batch directory of heights 0 to 10 after the three steps would have run: the argument
  file, the proof, the pie, the two input files, and the trace and memory files that the
  private-input file names.  In \<open>cleanup_env\<close> the processes exit with 0 and the
  private-input file decodes to an object naming these two files.
\<close>

definition cleanup_fs :: fsys where
  "cleanup_fs =
     [([''.proofs''], Dir),
      ([''.proofs'', ''light_0_to_10''], Dir),
      ([''.proofs'', ''light_0_to_10'', ''arguments.json''], File ''[]''),
      ([''.proofs'', ''light_0_to_10'', ''proof.json''], File ''proof''),
      ([''.proofs'', ''light_0_to_10'', ''pie.cairo_pie.zip''], File ''pie''),
      ([''.proofs'', ''light_0_to_10'', ''pub.json''], File ''pub''),
      ([''.proofs'', ''light_0_to_10'', ''priv.json''], File ''priv''),
      ([''/'', ''tmp'', ''trace.bin''], File ''trace''),
      ([''/'', ''tmp'', ''memory.bin''], File ''memory'')]"

definition cleanup_world :: world where
  "cleanup_world = \<lparr>fs = cleanup_fs, now = 0, logged = [], effects = []\<rparr>"

definition cleanup_env :: env where
  "cleanup_env =
     (quiet_env ''Linux'')\<lparr>json_load :=
        (\<lambda>s. Inr (JObj [(''trace_path'', JStr ''/tmp/trace.bin''),
                         (''memory_path'', JStr ''/tmp/memory.bin'')]))\<rparr>"

text \<open>A private-input file that names the proof file as its trace file.\<close>

definition proof_naming_env :: env where
  "proof_naming_env =
     (quiet_env ''Linux'')\<lparr>json_load :=
        (\<lambda>s. Inr (JObj [(''trace_path'', JStr ''.proofs/light_0_to_10/proof.json'')]))\<rparr>"


section \<open>Step runner: properties\<close>

lemma partition_stderr_filter:
  "partition_stderr ls t a = (t @ filter is_time_line ls, a @ filter (\<lambda>l. \<not> is_time_line l) ls)"
  by (induction ls arbitrary: t a) auto

lemma is_time_line_markers:
  "is_time_line line \<longleftrightarrow> startswith line [CHR 0x09] \<or> (\<exists>m \<in> set timing_markers. str_in m line)"
  by (simp add: is_time_line_def timing_markers_def)

text \<open>
  C9. When the process completes, \<^verbatim>\<open>run\<close> returns its standard output and exit code, and
  as error output the lines of the captured error stream, in their order and joined by
  newlines, that neither begin with a tab nor contain one of the timing markers; the
  markers named by the specification are among them.
\<close>

theorem run_strips_timing_lines:
  assumes "platform_system ev = ''Linux''"
    and "subprocess_run ev (time_cmd cmd) timeout (fs w) = (Exited out err rc, f', dt)"
  shows "\<exists>kept el mm w'.
           run ev cmd timeout w = (Inr (out, str_join NL kept, rc, el, mm), w')
           \<and> kept = filter (\<lambda>line. \<not> (startswith line [CHR 0x09]
                                       \<or> (\<exists>m \<in> set timing_markers. str_in m line)))
                      (splitlines err)
           \<and> set [''Maximum resident set size'', ''User time'', ''Elapsed (wall clock) time'',
                   ''Command being timed'', ''Percent of CPU'', ''Exit status'']
               \<subseteq> set timing_markers"
  using assms
  by (simp add: run_def Let_def clean_stderr_def partition_stderr_filter NL_def
      is_time_line_markers timing_markers_def)

theorem run_strips_timing_lines_witness:
  "platform_system (example_env ''Linux'' (\<lambda>c t f. (Exited ''out'' sample_stderr 0, f, 2))) = ''Linux''
   \<and> (\<exists>kept el mm w'.
        run (example_env ''Linux'' (\<lambda>c t f. (Exited ''out'' sample_stderr 0, f, 2)))
            [''true''] None empty_world
        = (Inr (''out'', str_join NL kept, 0, el, mm), w')
        \<and> kept = [''warning: slow'', ''done''])"
proof -
  have lines: "splitlines sample_stderr
               = [''warning: slow'', [CHR 0x09] @ ''Command being timed: x'',
                  ''Maximum resident set size (kbytes): 1234'', ''done'']"
    by (simp add: splitlines_def sample_stderr_def is_linebreak_def)
  have kept: "filter (\<lambda>line. \<not> (startswith line [CHR 0x09]
                                  \<or> (\<exists>m \<in> set timing_markers. str_in m line)))
                (splitlines sample_stderr) = [''warning: slow'', ''done'']"
    unfolding lines by (simp add: startswith_def timing_markers_def)
  show ?thesis
    using run_strips_timing_lines
      [of "example_env ''Linux'' (\<lambda>c t f. (Exited ''out'' sample_stderr 0, f, 2))"
          "[''true'']" None empty_world "''out''" sample_stderr 0 "[]" 2]
    unfolding kept by (simp add: example_env_def empty_world_def)
qed

text \<open>
  C7. When the command does not exit within the timeout \<open>t\<close>, \<^verbatim>\<open>run\<close> returns exit code -1,
  empty standard output, the message naming \<open>t\<close>, no peak memory, and as elapsed time the
  time \<open>dt\<close> that passed while waiting.
\<close>

theorem run_timeout:
  assumes "platform_system ev = ''Linux''"
    and "subprocess_run ev (time_cmd cmd) (Some t) (fs w) = (TimeoutExpired, f', dt)"
  shows "fst (run ev cmd (Some t) w)
         = Inr ([], ''Process timed out after '' @ str_int t @ '' seconds'', - 1, dt, None)"
  using assms by (simp add: run_def Let_def timeout_str_def emit_def)

theorem run_timeout_witness:
  "platform_system (example_env ''Linux'' (\<lambda>c t f. (TimeoutExpired, f, 30))) = ''Linux''
   \<and> fst (run (example_env ''Linux'' (\<lambda>c t f. (TimeoutExpired, f, 30))) [''sleep'', ''60'']
             (Some 30) empty_world)
     = Inr ([], ''Process timed out after 30 seconds'', - 1, 30, None)"
  using run_timeout [of "example_env ''Linux'' (\<lambda>c t f. (TimeoutExpired, f, 30))"
                        "[''sleep'', ''60'']" 30 empty_world "[]" 30]
  by (simp add: example_env_def empty_world_def str_int_def str_nat.simps digit_char_def)

section \<open>Pipeline driver: properties\<close>


lemma spawns_simps [simp]:
  "spawns [] = []" "spawns (Spawn c # es) = c # spawns es"
  "spawns (Write p # es) = spawns es" "spawns (Unlink p # es) = spawns es"
  "spawns (Mkdir p # es) = spawns es" "spawns (es @ es') = spawns es @ spawns es'"
  by (simp_all add: spawns_def List.map_filter_def)

lemma writes_simps [simp]:
  "writes [] = []" "writes (Write p # es) = p # writes es"
  "writes (Spawn c # es) = writes es" "writes (Unlink p # es) = writes es"
  "writes (Mkdir p # es) = writes es" "writes (es @ es') = writes es @ writes es'"
  by (simp_all add: writes_def List.map_filter_def)

lemma unlinks_simps [simp]:
  "unlinks [] = []" "unlinks (Unlink p # es) = p # unlinks es"
  "unlinks (Spawn c # es) = unlinks es" "unlinks (Write p # es) = unlinks es"
  "unlinks (Mkdir p # es) = unlinks es" "unlinks (es @ es') = unlinks es @ unlinks es'"
  by (simp_all add: unlinks_def List.map_filter_def)

lemma unlinks_map_Unlink [simp]: "unlinks (map Unlink ps) = ps"
  by (induction ps) simp_all

lemma spawns_map_Unlink [simp]: "spawns (map Unlink ps) = []"
  by (induction ps) simp_all

lemma writes_map_Unlink [simp]: "writes (map Unlink ps) = []"
  by (induction ps) simp_all

lemma new_effects_append [simp]: "effects w' = effects w @ es \<Longrightarrow> new_effects w w' = es"
  by (simp add: new_effects_def)

lemma run_Inr_effects:
  assumes "run ev cmd t w = (Inr r, w')"
  shows "effects w' = effects w @ [Spawn (time_cmd cmd)]"
  using assms
  by (auto simp: run_def Let_def emit_def split: if_splits prod.splits proc_outcome.splits)

lemma write_text_Inr_effects:
  assumes "write_text p txt w = (Inr u, w')"
  shows "effects w' = effects w @ [Write p]"
  using assms by (auto simp: write_text_def emit_def split: sum.splits)

lemma run_and_log_Inr:
  assumes "run_and_log ev job bd name cmd w = (Inr info, w')"
  shows "step info = name"
    and "effects w' = effects w @ [Spawn (time_cmd cmd), Write (log_path bd name)]"
proof -
  let ?w1 = "log_msg DEBUG (job @ '' ['' @ name @ ''] command:'' @ NL @ str_join '' '' cmd) w"
  obtain r w2 where r: "run ev cmd None ?w1 = (Inr r, w2)"
    and s: "save_prover_log ev bd name r w2 = (Inr (), w')" and i: "info = mk_step name r"
    using assms
    by (auto simp: run_and_log_def Let_def split: prod.splits sum.splits)
  show "step info = name" using i by (simp add: mk_step_def split: prod.splits)
  have "effects w2 = effects w @ [Spawn (time_cmd cmd)]"
    using run_Inr_effects [OF r] by (simp add: log_msg_def)
  moreover have "effects w' = effects w2 @ [Write (log_path bd name)]"
    using s write_text_Inr_effects by (simp add: save_prover_log_def)
  ultimately show "effects w' = effects w @ [Spawn (time_cmd cmd), Write (log_path bd name)]"
    by simp
qed

lemma unlink_all_effects:
  "\<exists>ps. effects (unlink_all ev ts w) = effects w @ map Unlink ps \<and> set ps \<subseteq> set ts"
proof (induction ts arbitrary: w)
  case Nil
  show ?case by (rule exI [of _ "[]"]) simp
next
  case (Cons t ts)
  show ?case
  proof (cases "path_exists (fs w) t")
    case False
    with Cons [of w] show ?thesis by auto
  next
    case True
    show ?thesis
    proof (cases "unlink ev t (fs w)")
      case (Inl e)
      let ?w = "log_msg WARNING (''Failed to clean up '' @ path_str t @ '': '' @ exc_message e) w"
      from Cons [of ?w] obtain ps where
        "effects (unlink_all ev ts ?w) = effects ?w @ map Unlink ps" "set ps \<subseteq> set ts" by blast
      with True Inl show ?thesis by (auto simp: log_msg_def)
    next
      case (Inr f')
      let ?w = "log_msg DEBUG (''Cleaned up temporary file: '' @ path_str t)
                  (emit (Unlink t) (w\<lparr>fs := f'\<rparr>))"
      from Cons [of ?w] obtain ps where
        ps: "effects (unlink_all ev ts ?w) = effects ?w @ map Unlink ps" "set ps \<subseteq> set ts" by blast
      have "effects (unlink_all ev (t # ts) w) = effects w @ map Unlink (t # ps)"
        using True Inr ps by (simp add: log_msg_def emit_def)
      moreover have "set (t # ps) \<subseteq> set (t # ts)" using ps by auto
      ultimately show ?thesis by blast
    qed
  qed
qed

lemma cleanup_effects:
  "\<exists>ps. effects (cleanup ev bd w) = effects w @ map Unlink ps
        \<and> set ps \<subseteq> set (temp_files ev (fs w) bd)"
proof -
  let ?priv = "path_div bd ''priv.json''"
  let ?w1 = "case snd (priv_temp_files ev (fs w) ?priv) of None \<Rightarrow> w
             | Some e \<Rightarrow> log_msg WARNING
                 (''Failed to parse '' @ path_str ?priv @ '' for cleanup: '' @ exc_message e) w"
  have e: "effects ?w1 = effects w" by (simp add: log_msg_def split: option.splits)
  from unlink_all_effects [of ev "temp_files ev (fs w) bd" ?w1]
  show ?thesis unfolding cleanup_def Let_def e by simp
qed

lemma run_prover_cases:
  assumes "run_prover ev job exe proof args w = (Inr steps, w')"
  obtains
    (pie_failed) i1 where
      "run_and_log ev job (parent (path_of_str proof)) ''PIE'' (pipeline_cmds exe proof args ! 0) w = (Inr i1, w')"
      "returncode i1 \<noteq> 0" "steps = [i1]"
  | (bootload_failed) i1 w1 i2 w2 where
      "run_and_log ev job (parent (path_of_str proof)) ''PIE'' (pipeline_cmds exe proof args ! 0) w = (Inr i1, w1)"
      "returncode i1 = 0"
      "run_and_log ev job (parent (path_of_str proof)) ''BOOTLOAD'' (pipeline_cmds exe proof args ! 1) w1 = (Inr i2, w2)"
      "returncode i2 \<noteq> 0" "steps = [i1, i2]"
      "w' = log_msg ERROR (job @ '' [BOOTLOAD] error: '' @ (if stdout i2 \<noteq> [] then stdout i2 else stderr i2)) w2"
  | (prove_failed) i1 w1 i2 w2 i3 where
      "run_and_log ev job (parent (path_of_str proof)) ''PIE'' (pipeline_cmds exe proof args ! 0) w = (Inr i1, w1)"
      "returncode i1 = 0"
      "run_and_log ev job (parent (path_of_str proof)) ''BOOTLOAD'' (pipeline_cmds exe proof args ! 1) w1 = (Inr i2, w2)"
      "returncode i2 = 0"
      "run_and_log ev job (parent (path_of_str proof)) ''PROVE'' (pipeline_cmds exe proof args ! 2) w2 = (Inr i3, w')"
      "returncode i3 \<noteq> 0" "steps = [i1, i2, i3]"
  | (all_ok) i1 w1 i2 w2 i3 w3 where
      "run_and_log ev job (parent (path_of_str proof)) ''PIE'' (pipeline_cmds exe proof args ! 0) w = (Inr i1, w1)"
      "returncode i1 = 0"
      "run_and_log ev job (parent (path_of_str proof)) ''BOOTLOAD'' (pipeline_cmds exe proof args ! 1) w1 = (Inr i2, w2)"
      "returncode i2 = 0"
      "run_and_log ev job (parent (path_of_str proof)) ''PROVE'' (pipeline_cmds exe proof args ! 2) w2 = (Inr i3, w3)"
      "returncode i3 = 0" "steps = [i1, i2, i3]"
      "w' = cleanup ev (parent (path_of_str proof)) w3"
  using assms
  unfolding run_prover_def bootload_stage_def prove_stage_def pipeline_cmds_def Let_def
  by (auto split: prod.splits sum.splits if_splits)


lemma run_prover_pie_failed:
  assumes "run_and_log ev job (parent (path_of_str proof)) ''PIE''
             (pipeline_cmds exe proof args ! 0) w = (Inr i1, w1)"
    and "returncode i1 \<noteq> 0"
  shows "run_prover ev job exe proof args w = (Inr [i1], w1)"
  using assms by (simp add: run_prover_def pipeline_cmds_def Let_def)


lemma parent_log_path [simp]: "parent (log_path bd name) = bd"
proof -
  have "\<not> is_anchor (s @ ''.log'')" for s
    by (auto simp: is_anchor_def append_eq_Cons_conv)
  then show ?thesis
    by (cases bd) (auto simp: parent_def log_path_def path_div_def is_top_def split: list.splits)
qed

lemma is_dir_update:
  "is_dir (AList.update p (File t) f) q = (is_top q \<or> (q \<noteq> p \<and> is_dir f q))"
  by (auto simp: is_dir_def update_conv')

lemma run_and_log_ok:
  assumes "platform_system ev = ''Linux''"
    and "subprocess_run ev (time_cmd cmd) None (fs w) = (Exited out err rc, f', d)"
    and "is_dir f' bd" and "\<not> is_dir f' (log_path bd name)"
  shows "\<exists>info w'. run_and_log ev job bd name cmd w = (Inr info, w')
           \<and> returncode info = rc
           \<and> (\<exists>txt. fs w' = AList.update (log_path bd name) (File txt) f')"
  using assms
  by (simp add: run_and_log_def run_def save_prover_log_def write_text_def write_file_def
      Let_def emit_def log_msg_def mk_step_def) blast

lemma run_prover_all_ok:
  assumes "run_and_log ev job (parent (path_of_str proof)) ''PIE''
             (pipeline_cmds exe proof args ! 0) w = (Inr i1, w1)"
    and "returncode i1 = 0"
    and "run_and_log ev job (parent (path_of_str proof)) ''BOOTLOAD''
             (pipeline_cmds exe proof args ! 1) w1 = (Inr i2, w2)"
    and "returncode i2 = 0"
    and "run_and_log ev job (parent (path_of_str proof)) ''PROVE''
             (pipeline_cmds exe proof args ! 2) w2 = (Inr i3, w3)"
  shows "run_prover ev job exe proof args w
         = (Inr [i1, i2, i3],
            if returncode i3 = 0 then cleanup ev (parent (path_of_str proof)) w3 else w3)"
  using assms
  by (simp add: run_prover_def bootload_stage_def prove_stage_def pipeline_cmds_def Let_def)

lemma sample_batch_dir: "parent (path_of_str sample_proof) = [''.proofs'', ''light_0_to_10'']"
  by (simp add: sample_proof_def path_of_str_def parent_def is_top_def)

lemma sample_log_paths:
  "log_path [''.proofs'', ''light_0_to_10''] ''PIE'' = [''.proofs'', ''light_0_to_10'', ''pie.log'']"
  "log_path [''.proofs'', ''light_0_to_10''] ''BOOTLOAD'' = [''.proofs'', ''light_0_to_10'', ''bootload.log'']"
  "log_path [''.proofs'', ''light_0_to_10''] ''PROVE'' = [''.proofs'', ''light_0_to_10'', ''prove.log'']"
  by (simp_all add: log_path_def path_div_def str_lower_def lower_char_def)


lemma run_and_log_run:
  assumes "run_and_log ev job bd name cmd w0 = (Inr info, w1)"
  shows "\<exists>out err rc el mm wr.
           run ev cmd None
             (w0\<lparr>logged := logged w0
                @ [(DEBUG, job @ '' ['' @ name @ ''] command:'' @ NL @ str_join '' '' cmd)]\<rparr>)
           = (Inr (out, err, rc, el, mm), wr)
           \<and> info = \<lparr>step = name, stdout = out, stderr = err, returncode = rc,
                      elapsed = el, max_memory = mm\<rparr>"
  using assms
  by (auto simp: run_and_log_def Let_def log_msg_def mk_step_def split: prod.splits sum.splits)

lemma pipeline_tools:
  "map hd (pipeline_cmds exe proof args) = [''cairo-execute'', ''stwo-bootloader'', ''adapted_stwo'']"
  by (simp add: pipeline_cmds_def Let_def pie_cmd_def bootload_cmd_def prove_cmd_def)

text \<open>
  C5. The driver runs the executor, the bootloader and the prover in this order, each gated
  on exit code 0 of the step before.  Whatever the first step does decides the rest: an
  exception of a step leaves the driver; a step that exits with a code other than 0 ends
  the driver, which returns the steps run so far, one for a failed PIE, two for a failed
  BOOTLOAD (with one ERROR record more); after PIE and BOOTLOAD exited with 0 the PROVE
  step runs, and the list of three is returned.  A step is the result of \<^verbatim>\<open>run\<close> on its
  command, spawned once; on Linux, when the process exits and its log file can be written,
  the step returns with the exit code of the process.  Whenever the driver returns a list,
  the commands spawned are the first \<open>length steps\<close> commands of the pipeline and no other,
  every step but the last exited with 0, a list shorter than three ends in a failed step,
  and a failed first step makes the list of length 1.
\<close>

theorem run_prover_short_circuit:
  "map hd (pipeline_cmds exe proof args) = [''cairo-execute'', ''stwo-bootloader'', ''adapted_stwo'']
   \<and> (\<forall>e w1. run_and_log ev job (parent (path_of_str proof)) ''PIE''
               (pipeline_cmds exe proof args ! 0) w = (Inl e, w1)
        \<longrightarrow> run_prover ev job exe proof args w = (Inl e, w1))
   \<and> (\<forall>i1 w1. run_and_log ev job (parent (path_of_str proof)) ''PIE''
               (pipeline_cmds exe proof args ! 0) w = (Inr i1, w1) \<and> returncode i1 \<noteq> 0
        \<longrightarrow> run_prover ev job exe proof args w = (Inr [i1], w1))
   \<and> (\<forall>i1 w1 e w2.
          run_and_log ev job (parent (path_of_str proof)) ''PIE''
            (pipeline_cmds exe proof args ! 0) w = (Inr i1, w1) \<and> returncode i1 = 0
          \<and> run_and_log ev job (parent (path_of_str proof)) ''BOOTLOAD''
              (pipeline_cmds exe proof args ! 1) w1 = (Inl e, w2)
        \<longrightarrow> run_prover ev job exe proof args w = (Inl e, w2))
   \<and> (\<forall>i1 w1 i2 w2.
          run_and_log ev job (parent (path_of_str proof)) ''PIE''
            (pipeline_cmds exe proof args ! 0) w = (Inr i1, w1) \<and> returncode i1 = 0
          \<and> run_and_log ev job (parent (path_of_str proof)) ''BOOTLOAD''
              (pipeline_cmds exe proof args ! 1) w1 = (Inr i2, w2) \<and> returncode i2 \<noteq> 0
        \<longrightarrow> run_prover ev job exe proof args w
            = (Inr [i1, i2],
               w2\<lparr>logged := logged w2
                  @ [(ERROR, job @ '' [BOOTLOAD] error: ''
                             @ (if stdout i2 \<noteq> [] then stdout i2 else stderr i2))]\<rparr>))
   \<and> (\<forall>i1 w1 i2 w2 e w3.
          run_and_log ev job (parent (path_of_str proof)) ''PIE''
            (pipeline_cmds exe proof args ! 0) w = (Inr i1, w1) \<and> returncode i1 = 0
          \<and> run_and_log ev job (parent (path_of_str proof)) ''BOOTLOAD''
              (pipeline_cmds exe proof args ! 1) w1 = (Inr i2, w2) \<and> returncode i2 = 0
          \<and> run_and_log ev job (parent (path_of_str proof)) ''PROVE''
              (pipeline_cmds exe proof args ! 2) w2 = (Inl e, w3)
        \<longrightarrow> run_prover ev job exe proof args w = (Inl e, w3))
   \<and> (\<forall>i1 w1 i2 w2 i3 w3.
          run_and_log ev job (parent (path_of_str proof)) ''PIE''
            (pipeline_cmds exe proof args ! 0) w = (Inr i1, w1) \<and> returncode i1 = 0
          \<and> run_and_log ev job (parent (path_of_str proof)) ''BOOTLOAD''
              (pipeline_cmds exe proof args ! 1) w1 = (Inr i2, w2) \<and> returncode i2 = 0
          \<and> run_and_log ev job (parent (path_of_str proof)) ''PROVE''
              (pipeline_cmds exe proof args ! 2) w2 = (Inr i3, w3)
        \<longrightarrow> run_prover ev job exe proof args w
            = (Inr [i1, i2, i3],
               if returncode i3 = 0 then cleanup ev (parent (path_of_str proof)) w3 else w3))
   \<and> (\<forall>info w1. run_and_log ev job bd name cmd w0 = (Inr info, w1)
        \<longrightarrow> spawns (new_effects w0 w1) = [time_cmd cmd]
            \<and> (\<exists>out err rc el mm wr.
                  run ev cmd None
                    (w0\<lparr>logged := logged w0
                       @ [(DEBUG, job @ '' ['' @ name @ ''] command:'' @ NL @ str_join '' '' cmd)]\<rparr>)
                  = (Inr (out, err, rc, el, mm), wr)
                  \<and> info = \<lparr>step = name, stdout = out, stderr = err, returncode = rc,
                             elapsed = el, max_memory = mm\<rparr>))
   \<and> (\<forall>out err rc f' d.
          platform_system ev = ''Linux''
          \<and> subprocess_run ev (time_cmd cmd) None (fs w0) = (Exited out err rc, f', d)
          \<and> is_dir f' bd \<and> \<not> is_dir f' (log_path bd name)
        \<longrightarrow> (\<exists>info w1. run_and_log ev job bd name cmd w0 = (Inr info, w1)
                        \<and> returncode info = rc \<and> stdout info = out))
   \<and> (\<forall>steps w'. run_prover ev job exe proof args w = (Inr steps, w') \<longrightarrow>
         steps \<noteq> [] \<and> length steps \<le> 3
         \<and> map step steps = take (length steps) [''PIE'', ''BOOTLOAD'', ''PROVE'']
         \<and> spawns (new_effects w w')
             = map time_cmd (take (length steps) (pipeline_cmds exe proof args))
         \<and> (\<forall>i < length steps - 1. returncode (steps ! i) = 0)
         \<and> (length steps < 3 \<longrightarrow> returncode (last steps) \<noteq> 0)
         \<and> (returncode (hd steps) \<noteq> 0 \<longrightarrow> length steps = 1))"
proof -
  let ?bd = "parent (path_of_str proof)"
  let ?c = "pipeline_cmds exe proof args"
  have cs: "?c ! 0 = pie_cmd args (path_div ?bd ''pie.cairo_pie.zip'') exe"
    "?c ! 1 = bootload_cmd (path_div ?bd ''pie.cairo_pie.zip'') ?bd"
    "?c ! 2 = prove_cmd (path_div ?bd ''priv.json'') (path_div ?bd ''pub.json'') proof"
    by (simp_all add: pipeline_cmds_def Let_def)
  have c1: "\<forall>e w1. run_and_log ev job ?bd ''PIE'' (?c ! 0) w = (Inl e, w1)
        \<longrightarrow> run_prover ev job exe proof args w = (Inl e, w1)"
    by (simp add: run_prover_def Let_def pipeline_cmds_def)
  have c2: "\<forall>i1 w1. run_and_log ev job ?bd ''PIE'' (?c ! 0) w = (Inr i1, w1) \<and> returncode i1 \<noteq> 0
        \<longrightarrow> run_prover ev job exe proof args w = (Inr [i1], w1)"
    by (simp add: run_prover_def Let_def pipeline_cmds_def)
  have c3: "\<forall>i1 w1 e w2.
          run_and_log ev job ?bd ''PIE'' (?c ! 0) w = (Inr i1, w1) \<and> returncode i1 = 0
          \<and> run_and_log ev job ?bd ''BOOTLOAD'' (?c ! 1) w1 = (Inl e, w2)
        \<longrightarrow> run_prover ev job exe proof args w = (Inl e, w2)"
    by (simp add: run_prover_def bootload_stage_def Let_def pipeline_cmds_def)
  have c4: "\<forall>i1 w1 i2 w2.
          run_and_log ev job ?bd ''PIE'' (?c ! 0) w = (Inr i1, w1) \<and> returncode i1 = 0
          \<and> run_and_log ev job ?bd ''BOOTLOAD'' (?c ! 1) w1 = (Inr i2, w2) \<and> returncode i2 \<noteq> 0
        \<longrightarrow> run_prover ev job exe proof args w
            = (Inr [i1, i2],
               w2\<lparr>logged := logged w2
                  @ [(ERROR, job @ '' [BOOTLOAD] error: ''
                             @ (if stdout i2 \<noteq> [] then stdout i2 else stderr i2))]\<rparr>)"
    by (simp add: run_prover_def bootload_stage_def Let_def pipeline_cmds_def log_msg_def)
  have c5: "\<forall>i1 w1 i2 w2 e w3.
          run_and_log ev job ?bd ''PIE'' (?c ! 0) w = (Inr i1, w1) \<and> returncode i1 = 0
          \<and> run_and_log ev job ?bd ''BOOTLOAD'' (?c ! 1) w1 = (Inr i2, w2) \<and> returncode i2 = 0
          \<and> run_and_log ev job ?bd ''PROVE'' (?c ! 2) w2 = (Inl e, w3)
        \<longrightarrow> run_prover ev job exe proof args w = (Inl e, w3)"
    by (simp add: run_prover_def bootload_stage_def prove_stage_def Let_def pipeline_cmds_def)
  have c6: "\<forall>i1 w1 i2 w2 i3 w3.
          run_and_log ev job ?bd ''PIE'' (?c ! 0) w = (Inr i1, w1) \<and> returncode i1 = 0
          \<and> run_and_log ev job ?bd ''BOOTLOAD'' (?c ! 1) w1 = (Inr i2, w2) \<and> returncode i2 = 0
          \<and> run_and_log ev job ?bd ''PROVE'' (?c ! 2) w2 = (Inr i3, w3)
        \<longrightarrow> run_prover ev job exe proof args w
            = (Inr [i1, i2, i3], if returncode i3 = 0 then cleanup ev ?bd w3 else w3)"
    by (simp add: run_prover_def bootload_stage_def prove_stage_def Let_def pipeline_cmds_def)
  have c7: "\<forall>info w1. run_and_log ev job bd name cmd w0 = (Inr info, w1)
        \<longrightarrow> spawns (new_effects w0 w1) = [time_cmd cmd]
            \<and> (\<exists>out err rc el mm wr.
                  run ev cmd None
                    (w0\<lparr>logged := logged w0
                       @ [(DEBUG, job @ '' ['' @ name @ ''] command:'' @ NL @ str_join '' '' cmd)]\<rparr>)
                  = (Inr (out, err, rc, el, mm), wr)
                  \<and> info = \<lparr>step = name, stdout = out, stderr = err, returncode = rc,
                             elapsed = el, max_memory = mm\<rparr>)"
  proof (intro allI impI)
    fix info w1
    assume r: "run_and_log ev job bd name cmd w0 = (Inr info, w1)"
    from run_and_log_Inr(2) [OF r] have "spawns (new_effects w0 w1) = [time_cmd cmd]" by simp
    with run_and_log_run [OF r]
    show "spawns (new_effects w0 w1) = [time_cmd cmd]
            \<and> (\<exists>out err rc el mm wr.
                  run ev cmd None
                    (w0\<lparr>logged := logged w0
                       @ [(DEBUG, job @ '' ['' @ name @ ''] command:'' @ NL @ str_join '' '' cmd)]\<rparr>)
                  = (Inr (out, err, rc, el, mm), wr)
                  \<and> info = \<lparr>step = name, stdout = out, stderr = err, returncode = rc,
                             elapsed = el, max_memory = mm\<rparr>)"
      by blast
  qed
  have c8: "\<forall>out err rc f' d.
          platform_system ev = ''Linux''
          \<and> subprocess_run ev (time_cmd cmd) None (fs w0) = (Exited out err rc, f', d)
          \<and> is_dir f' bd \<and> \<not> is_dir f' (log_path bd name)
        \<longrightarrow> (\<exists>info w1. run_and_log ev job bd name cmd w0 = (Inr info, w1)
                        \<and> returncode info = rc \<and> stdout info = out)"
    by (simp add: run_and_log_def run_def save_prover_log_def write_text_def write_file_def
        Let_def emit_def log_msg_def mk_step_def)
  have c9: "\<forall>steps w'. run_prover ev job exe proof args w = (Inr steps, w') \<longrightarrow>
         steps \<noteq> [] \<and> length steps \<le> 3
         \<and> map step steps = take (length steps) [''PIE'', ''BOOTLOAD'', ''PROVE'']
         \<and> spawns (new_effects w w')
             = map time_cmd (take (length steps) (pipeline_cmds exe proof args))
         \<and> (\<forall>i < length steps - 1. returncode (steps ! i) = 0)
         \<and> (length steps < 3 \<longrightarrow> returncode (last steps) \<noteq> 0)
         \<and> (returncode (hd steps) \<noteq> 0 \<longrightarrow> length steps = 1)"
  proof (intro allI impI)
    fix steps w'
    assume rp: "run_prover ev job exe proof args w = (Inr steps, w')"
    have len: "length (pipeline_cmds exe proof args) = 3"
      by (simp add: pipeline_cmds_def Let_def)
    then obtain c0 c1 c2 where cs: "pipeline_cmds exe proof args = [c0, c1, c2]"
      by (auto simp: length_Suc_conv numeral_3_eq_3)
    from rp show "steps \<noteq> [] \<and> length steps \<le> 3
         \<and> map step steps = take (length steps) [''PIE'', ''BOOTLOAD'', ''PROVE'']
         \<and> spawns (new_effects w w')
             = map time_cmd (take (length steps) (pipeline_cmds exe proof args))
         \<and> (\<forall>i < length steps - 1. returncode (steps ! i) = 0)
         \<and> (length steps < 3 \<longrightarrow> returncode (last steps) \<noteq> 0)
         \<and> (returncode (hd steps) \<noteq> 0 \<longrightarrow> length steps = 1)"
    proof (cases rule: run_prover_cases)
      case (pie_failed i1)
      from run_and_log_Inr [OF pie_failed(1)] pie_failed(2,3) show ?thesis
        by (simp add: cs)
    next
      case (bootload_failed i1 w1 i2 w2)
      from run_and_log_Inr [OF bootload_failed(1)] run_and_log_Inr [OF bootload_failed(3)]
        bootload_failed(2,4,5,6)
      show ?thesis by (simp add: cs log_msg_def)
    next
      case (prove_failed i1 w1 i2 w2 i3)
      from run_and_log_Inr [OF prove_failed(1)] run_and_log_Inr [OF prove_failed(3)]
        run_and_log_Inr [OF prove_failed(5)] prove_failed(2,4,6,7)
      show ?thesis by (simp add: cs less_Suc_eq nth_Cons')
    next
      case (all_ok i1 w1 i2 w2 i3 w3)
      obtain ps where ps: "effects w' = effects w3 @ map Unlink ps"
        using cleanup_effects [of ev "parent (path_of_str proof)" w3] all_ok(8) by blast
      from run_and_log_Inr [OF all_ok(1)] run_and_log_Inr [OF all_ok(3)]
        run_and_log_Inr [OF all_ok(5)] all_ok(2,4,6,7) ps
      show ?thesis by (simp add: cs less_Suc_eq nth_Cons')
    qed
  qed
  show ?thesis by (intro conjI pipeline_tools c1 c2 c3 c4 c5 c6 c7 c8 c9)
qed


theorem run_prover_short_circuit_witness:
  "(\<exists>i1 w'. run_prover (example_env ''Linux'' (\<lambda>c t f. (Exited [] ''boom'' 1, f, 1)))
        ''job'' ''exe'' sample_proof ''args'' sample_world = (Inr [i1], w')
      \<and> returncode i1 = 1
      \<and> spawns (new_effects sample_world w')
          = [time_cmd (pipeline_cmds ''exe'' sample_proof ''args'' ! 0)])
   \<and> (\<exists>i1 i2 i3 w'. run_prover (example_env ''Linux'' (\<lambda>c t f. (Exited [] [] 0, f, 1)))
        ''job'' ''exe'' sample_proof ''args'' sample_world = (Inr [i1, i2, i3], w')
      \<and> map step [i1, i2, i3] = [''PIE'', ''BOOTLOAD'', ''PROVE'']
      \<and> spawns (new_effects sample_world w')
          = map time_cmd (pipeline_cmds ''exe'' sample_proof ''args''))"
proof
  let ?ev = "example_env ''Linux'' (\<lambda>c t f. (Exited [] ''boom'' 1, f, 1))"
  let ?bd = "[''.proofs'', ''light_0_to_10'']"
  let ?cmds = "pipeline_cmds ''exe'' sample_proof ''args''"
  note t = run_prover_short_circuit [of "''exe''" sample_proof "''args''" ?ev "''job''" sample_world]
  have "\<exists>info w'. run_and_log ?ev ''job'' ?bd ''PIE'' (?cmds ! 0) sample_world = (Inr info, w')
           \<and> returncode info = 1
           \<and> (\<exists>lt. fs w' = AList.update (log_path ?bd ''PIE'') (File lt) sample_fs)"
    by (rule run_and_log_ok)
      (simp_all add: example_env_def sample_world_def sample_fs_def is_dir_def is_top_def
        sample_log_paths)
  then obtain i1 w1 where
    r: "run_and_log ?ev ''job'' (parent (path_of_str sample_proof)) ''PIE'' (?cmds ! 0) sample_world
        = (Inr i1, w1)"
    and rc: "returncode i1 = 1"
    unfolding sample_batch_dir by blast
  have a: "run_prover ?ev ''job'' ''exe'' sample_proof ''args'' sample_world = (Inr [i1], w1)"
    using t [THEN conjunct2, THEN conjunct2, THEN conjunct1] r rc by simp
  have "spawns (new_effects sample_world w1) = map time_cmd (take (length [i1]) ?cmds)"
    using t [THEN conjunct2, THEN conjunct2, THEN conjunct2, THEN conjunct2, THEN conjunct2,
        THEN conjunct2, THEN conjunct2, THEN conjunct2, THEN conjunct2] a by blast
  moreover have "length ?cmds = 3" by (simp add: pipeline_cmds_def Let_def)
  then have "take (length [i1]) ?cmds = [?cmds ! 0]"
    by (auto simp: length_Suc_conv numeral_3_eq_3)
  ultimately show "\<exists>i1 w'. run_prover ?ev ''job'' ''exe'' sample_proof ''args'' sample_world
        = (Inr [i1], w')
      \<and> returncode i1 = 1
      \<and> spawns (new_effects sample_world w') = [time_cmd (?cmds ! 0)]"
    using a rc by auto
next
  let ?ev = "example_env ''Linux'' (\<lambda>c t f. (Exited [] [] 0, f, 1))"
  let ?bd = "[''.proofs'', ''light_0_to_10'']"
  let ?cmds = "pipeline_cmds ''exe'' sample_proof ''args''"
  note t = run_prover_short_circuit [of "''exe''" sample_proof "''args''" ?ev "''job''" sample_world]
  have lin: "platform_system ?ev = ''Linux''" by (simp add: example_env_def)
  have sp: "subprocess_run ?ev c None f = (Exited [] [] 0, f, 1)" for c f
    by (simp add: example_env_def)
  have "\<exists>info w'. run_and_log ?ev ''job'' ?bd ''PIE'' (?cmds ! 0) sample_world = (Inr info, w')
           \<and> returncode info = 0
           \<and> (\<exists>lt. fs w' = AList.update (log_path ?bd ''PIE'') (File lt) (fs sample_world))"
    by (rule run_and_log_ok [OF lin sp])
      (simp_all add: sample_world_def sample_fs_def is_dir_def is_top_def sample_log_paths)
  then obtain i1 w1 t1 where
    r1: "run_and_log ?ev ''job'' ?bd ''PIE'' (?cmds ! 0) sample_world = (Inr i1, w1)"
    and rc1: "returncode i1 = 0"
    and f1: "fs w1 = AList.update (log_path ?bd ''PIE'') (File t1) (fs sample_world)"
    by blast
  have "\<exists>info w'. run_and_log ?ev ''job'' ?bd ''BOOTLOAD'' (?cmds ! 1) w1 = (Inr info, w')
           \<and> returncode info = 0
           \<and> (\<exists>lt. fs w' = AList.update (log_path ?bd ''BOOTLOAD'') (File lt) (fs w1))"
    by (rule run_and_log_ok [OF lin sp])
      (simp_all add: f1 is_dir_update sample_world_def sample_fs_def is_dir_def is_top_def
        sample_log_paths)
  then obtain i2 w2 t2 where
    r2: "run_and_log ?ev ''job'' ?bd ''BOOTLOAD'' (?cmds ! 1) w1 = (Inr i2, w2)"
    and rc2: "returncode i2 = 0"
    and f2: "fs w2 = AList.update (log_path ?bd ''BOOTLOAD'') (File t2) (fs w1)"
    by blast
  have "\<exists>info w'. run_and_log ?ev ''job'' ?bd ''PROVE'' (?cmds ! 2) w2 = (Inr info, w')
           \<and> returncode info = 0
           \<and> (\<exists>lt. fs w' = AList.update (log_path ?bd ''PROVE'') (File lt) (fs w2))"
    by (rule run_and_log_ok [OF lin sp])
      (simp_all add: f1 f2 is_dir_update sample_world_def sample_fs_def is_dir_def is_top_def
        sample_log_paths)
  then obtain i3 w3 where
    r3: "run_and_log ?ev ''job'' ?bd ''PROVE'' (?cmds ! 2) w2 = (Inr i3, w3)"
    and rc3: "returncode i3 = 0"
    by blast
  have rp: "run_prover ?ev ''job'' ''exe'' sample_proof ''args'' sample_world
            = (Inr [i1, i2, i3], cleanup ?ev ?bd w3)"
    using t [THEN conjunct2, THEN conjunct2, THEN conjunct2, THEN conjunct2, THEN conjunct2,
        THEN conjunct2, THEN conjunct1] r1 rc1 r2 rc2 r3 rc3
    unfolding sample_batch_dir by simp
  have inv: "map step [i1, i2, i3] = take (length [i1, i2, i3]) [''PIE'', ''BOOTLOAD'', ''PROVE'']
             \<and> spawns (new_effects sample_world (cleanup ?ev ?bd w3))
                 = map time_cmd (take (length [i1, i2, i3]) ?cmds)"
    using t [THEN conjunct2, THEN conjunct2, THEN conjunct2, THEN conjunct2, THEN conjunct2,
        THEN conjunct2, THEN conjunct2, THEN conjunct2, THEN conjunct2] rp by blast
  have "length ?cmds = 3" by (simp add: pipeline_cmds_def Let_def)
  then have "take (length [i1, i2, i3]) ?cmds = ?cmds" by simp
  with inv rp show "\<exists>i1 i2 i3 w'. run_prover ?ev ''job'' ''exe'' sample_proof ''args'' sample_world
        = (Inr [i1, i2, i3], w')
      \<and> map step [i1, i2, i3] = [''PIE'', ''BOOTLOAD'', ''PROVE'']
      \<and> spawns (new_effects sample_world w') = map time_cmd ?cmds"
    by auto
qed



section \<open>Resume locator and proof chain resolver: properties\<close>


lemma str_int_small:
  "str_int 0 = ''0''" "str_int 10 = ''10''" "str_int 20 = ''20''" "str_int 30 = ''30''"
  "str_int 1 = ''1''"
  by (simp_all add: str_int_def str_nat.simps digit_char_def)

lemma str_int_99: "str_int 99 = ''99''"
  by (simp add: str_int_def str_nat.simps digit_char_def)

text \<open>
  C6. Batch 0 to 10 is complete, and \<^verbatim>\<open>.proofs\<close> also holds the directory \<^verbatim>\<open>light_0_to_99.bak\<close>
  with a proof file.  The name of that directory does not end in an end height, and for the
  chain resolver no directory ends at 99; yet the pattern, matched at the start of the name
  only, reads 99 from it, and the resume point returned is 99, not 10.
\<close>

theorem auto_detect_start_counts_renamed_dir:
  "children backup_fs PROOF_DIR
     = [[''.proofs'', ''light_0_to_10''], [''.proofs'', ''light_0_to_99.bak'']]
   \<and> match_end_height ''light_0_to_10'' = Some 10
   \<and> match_end_height ''light_0_to_99.bak'' = Some 99
   \<and> auto_detect_start backup_fs = Inr 99
   \<and> glob_batches backup_fs ''light'' 10 = [[''.proofs'', ''light_0_to_10'']]
   \<and> glob_batches backup_fs ''light'' 99 = []
   \<and> previous_proof backup_fs ''light'' 99 = None"
proof -
  have c: "children backup_fs PROOF_DIR
           = [[''.proofs'', ''light_0_to_10''], [''.proofs'', ''light_0_to_99.bak'']]"
    by (simp add: children_def backup_fs_def PROOF_DIR_def is_top_def)
  have m: "match_end_height ''light_0_to_10'' = Some 10"
    "match_end_height ''light_0_to_99.bak'' = Some 99"
    by (simp_all add: match_end_height_def is_digit_def int_of_digits_def)
  have d: "is_dir backup_fs PROOF_DIR" "path_exists backup_fs PROOF_DIR"
    "is_dir backup_fs [''.proofs'', ''light_0_to_10'']"
    "is_dir backup_fs [''.proofs'', ''light_0_to_99.bak'']"
    "path_exists backup_fs [''.proofs'', ''light_0_to_10'', ''proof.json'']"
    "path_exists backup_fs [''.proofs'', ''light_0_to_99.bak'', ''proof.json'']"
    by (simp_all add: is_dir_def path_exists_def backup_fs_def PROOF_DIR_def)
  have a: "auto_detect_start backup_fs = Inr 99"
    by (simp add: auto_detect_start_def c d m path_name_def is_top_def path_div_def)
  have g: "glob_batches backup_fs ''light'' 10 = [[''.proofs'', ''light_0_to_10'']]"
    "glob_batches backup_fs ''light'' 99 = []"
    by (simp_all add: glob_batches_def c d path_name_def is_top_def glob_match_def
        str_int_small str_int_99 suffix_def Let_def)
  have "previous_proof backup_fs ''light'' 99 = None"
    by (simp add: previous_proof_def g)
  with c m a g show ?thesis by simp
qed

text \<open>
  The search of the previous proof yields the proof path of the first enumerated match
  whose \<^verbatim>\<open>proof.json\<close> exists; when no match has one, the variable keeps the path built
  for the last match enumerated.
\<close>

lemma scan_previous_first_existing:
  assumes "filter (\<lambda>d. path_exists f (path_div d ''proof.json'')) ds = d # rest"
  shows "scan_previous f ds acc = Some (path_div d ''proof.json'')"
  using assms
  by (induction ds arbitrary: acc) (auto simp: Let_def split: if_splits)

lemma scan_previous_none_existing:
  assumes "filter (\<lambda>d. path_exists f (path_div d ''proof.json'')) ds = []"
  shows "scan_previous f ds acc
         = (if ds = [] then acc else Some (path_div (last ds) ''proof.json''))"
  using assms
  by (induction ds arbitrary: acc) (auto simp: Let_def split: if_splits)

text \<open>
  C1. Height 10, and the directory \<^verbatim>\<open>light_0_to_10\<close> exists without a \<^verbatim>\<open>proof.json\<close>: the
  one enumerated match has no finalized proof, and the previous proof is resolved to the
  path of that missing file, not to none.
\<close>

theorem previous_proof_dangling:
  "glob_batches sample_fs ''light'' 10 = [[''.proofs'', ''light_0_to_10'']]
   \<and> \<not> path_exists sample_fs [''.proofs'', ''light_0_to_10'', ''proof.json'']
   \<and> previous_proof sample_fs ''light'' 10 = Some [''.proofs'', ''light_0_to_10'', ''proof.json'']"
  by (simp add: previous_proof_def glob_batches_def children_def sample_fs_def PROOF_DIR_def
      is_dir_def is_top_def path_exists_def path_div_def path_name_def glob_match_def
      str_int_small suffix_def Let_def)


section \<open>Batch job and orchestrator: properties\<close>






lemma prove_batch_total:
  "\<exists>b w'. prove_batch ev height step_size w = (Inr b, w')"
proof -
  let ?r = "prove_batch_body ev height step_size
              (log_msg DEBUG (job_info_of height step_size @ '' proving...'') w)"
  obtain r w1 where p: "?r = (r, w1)" by (cases ?r) auto
  show ?thesis using p by (cases r) (auto simp: prove_batch_def Let_def)
qed

lemma prove_batch_caught:
  assumes "prove_batch_body ev height step_size
             (log_msg DEBUG (job_info_of height step_size @ '' proving...'') w) = (Inl e, w1)"
  shows "prove_batch ev height step_size w
         = (Inr False, log_msg ERROR (batch_error_msg ev (job_info_of height step_size) e) w1)"
  using assms by (simp add: prove_batch_def Let_def)


lemma prepare_batch_data_raises:
  assumes "generate_data ev ''light'' height step_size True = Inl e"
  shows "\<exists>e' w'. prepare_batch ev height step_size w = (Inl e', w')"
  using assms by (simp add: prepare_batch_def Let_def split: prod.splits sum.splits)

lemma prepare_batch_args_raises:
  assumes "\<forall>f p q. \<exists>e. generate_assumevalid_args ev f p q = Inl e"
  shows "\<exists>e' w'. prepare_batch ev height step_size w = (Inl e', w')"
proof -
  have "\<exists>e. generate_assumevalid_args ev f p q = Inl e" for f p q using assms by blast
  then have "generate_assumevalid_args ev f p q \<noteq> Inr a" for f p q a
    by (metis sum.distinct(1))
  then show ?thesis
    by (simp add: prepare_batch_def Let_def split: prod.splits sum.splits)
qed

lemma prove_batch_body_prepare_raises:
  assumes "prepare_batch ev height step_size w = (Inl e, w')"
  shows "prove_batch_body ev height step_size w = (Inl e, w')"
  using assms by (simp add: prove_batch_body_def Let_def)

lemma prove_batch_body_pipeline_raises:
  assumes "prepare_batch ev height step_size w = (Inr u, w1)"
    and "run_prover ev (job_info_of height step_size)
           ''../../target/proving/assumevalid.executable.json''
           (path_str (path_div (batch_dir_of ''light'' height step_size) ''proof.json''))
           (path_str (path_div (batch_dir_of ''light'' height step_size) ''arguments.json'')) w1
         = (Inl e, w2)"
  shows "prove_batch_body ev height step_size w = (Inl e, w2)"
  using assms by (simp add: prove_batch_body_def Let_def)






lemma quiet_env_simps [simp]:
  "platform_system (quiet_env plat) = plat"
  "subprocess_run (quiet_env plat) c t f = (Exited [] [] 0, f, 1)"
  "generate_data (quiet_env plat) m h n fast
   = Inr (JObj [(''chain_state'', JNull), (''blocks'', JArr [])])"
  "generate_assumevalid_args (quiet_env plat) f p q = Inr (JArr [])"
  by (simp_all add: quiet_env_def example_env_def)

lemma py_range_examples:
  "py_range 0 10 10 = Inr [0]" "py_range 0 60 20 = Inr [0, 20, 40]"
  by (simp_all add: py_range_def upt_rec)




lemma str_in_prefix: "prefix p s \<Longrightarrow> str_in p s"
  by (cases s) auto

lemma str_in_self_prefix: "str_in p (p @ b)"
  by (rule str_in_prefix) simp

lemma str_in_append: "str_in p (a @ p @ b)"
  by (induction a) (auto simp: str_in_self_prefix)

text \<open>
  C8. \<^verbatim>\<open>prove_batch\<close> always returns a boolean.  An exception raised in the \<^verbatim>\<open>try\<close> block is
  caught: the batch returns false, and the world it leaves is the world at the raise with
  one ERROR record more.  The message of that record is the job, the words error while
  processing, the job again, the text of the exception, and the stack trace; the job, the
  text of the exception and the trace each occur in it.  When the batch directory is there
  and the data generator raises, that exception is the one logged.  The batch returns false
  when the data generator raises, when the argument generator raises, and when the pipeline
  driver raises.
\<close>

theorem prove_batch_catches_exceptions:
  assumes job: "job = ''Job(height='' @ [CHR 0x27] @ str_int height @ [CHR 0x27]
                      @ '', blocks='' @ str_int step_size @ '')''"
    and msg: "\<And>e. msg e = job @ '' error while processing '' @ job @ '':'' @ [CHR 0x0A]
                       @ exc_message e @ [CHR 0x0A] @ ''stacktrace:'' @ [CHR 0x0A]
                       @ format_exc ev e"
  shows
  "(\<exists>b w'. prove_batch ev height step_size w = (Inr b, w'))
   \<and> (\<forall>e w1. prove_batch_body ev height step_size
                (w\<lparr>logged := logged w @ [(DEBUG, job @ '' proving...'')]\<rparr>) = (Inl e, w1)
        \<longrightarrow> prove_batch ev height step_size w
            = (Inr False, w1\<lparr>logged := logged w1 @ [(ERROR, msg e)]\<rparr>))
   \<and> (\<forall>e. str_in job (msg e) \<and> str_in (exc_message e) (msg e)
           \<and> str_in (format_exc ev e) (msg e))
   \<and> (\<forall>u wm e.
         mkdir_exist_ok (batch_dir_of ''light'' height step_size)
           (w\<lparr>logged := logged w @ [(DEBUG, job @ '' proving...'')]\<rparr>) = (Inr u, wm)
         \<and> generate_data ev ''light'' height step_size True = Inl e
        \<longrightarrow> prove_batch ev height step_size w
            = (Inr False,
               wm\<lparr>logged := logged wm
                  @ [(DEBUG, job @ '' generating data...''), (ERROR, msg e)]\<rparr>))
   \<and> ((\<exists>e. generate_data ev ''light'' height step_size True = Inl e)
        \<longrightarrow> fst (prove_batch ev height step_size w) = Inr False)
   \<and> ((\<forall>f p q. \<exists>e. generate_assumevalid_args ev f p q = Inl e)
        \<longrightarrow> fst (prove_batch ev height step_size w) = Inr False)
   \<and> (\<forall>u w1 e w2.
         prepare_batch ev height step_size
           (w\<lparr>logged := logged w @ [(DEBUG, job @ '' proving...'')]\<rparr>) = (Inr u, w1)
         \<and> run_prover ev job ''../../target/proving/assumevalid.executable.json''
             (path_str (path_div (batch_dir_of ''light'' height step_size) ''proof.json''))
             (path_str (path_div (batch_dir_of ''light'' height step_size) ''arguments.json'')) w1
           = (Inl e, w2)
        \<longrightarrow> prove_batch ev height step_size w
            = (Inr False, w2\<lparr>logged := logged w2 @ [(ERROR, msg e)]\<rparr>))"
proof -
  have j: "job = job_info_of height step_size"
    by (simp add: job job_info_of_def)
  have m: "msg e = batch_error_msg ev (job_info_of height step_size) e" for e
    by (simp add: msg j batch_error_msg_def NL_def)
  have w0: "w\<lparr>logged := logged w @ [(DEBUG, job @ '' proving...'')]\<rparr>
            = log_msg DEBUG (job_info_of height step_size @ '' proving...'') w"
    by (simp add: log_msg_def j)
  have caught: "prove_batch ev height step_size w
                = (Inr False, w1\<lparr>logged := logged w1 @ [(ERROR, msg e)]\<rparr>)"
    if "prove_batch_body ev height step_size
          (w\<lparr>logged := logged w @ [(DEBUG, job @ '' proving...'')]\<rparr>) = (Inl e, w1)" for e w1
    using prove_batch_caught [of ev height step_size w e w1] that
    unfolding w0 m by (simp add: log_msg_def)
  have c1: "\<exists>b w'. prove_batch ev height step_size w = (Inr b, w')"
    by (rule prove_batch_total)
  have c2: "\<forall>e w1. prove_batch_body ev height step_size
                (w\<lparr>logged := logged w @ [(DEBUG, job @ '' proving...'')]\<rparr>) = (Inl e, w1)
        \<longrightarrow> prove_batch ev height step_size w
            = (Inr False, w1\<lparr>logged := logged w1 @ [(ERROR, msg e)]\<rparr>)"
    using caught by blast
  have c3: "\<forall>e. str_in job (msg e) \<and> str_in (exc_message e) (msg e)
           \<and> str_in (format_exc ev e) (msg e)"
  proof (intro allI conjI)
    fix e
    show "str_in job (msg e)"
      unfolding msg by (rule str_in_self_prefix)
    have "msg e = (job @ '' error while processing '' @ job @ '':'' @ [CHR 0x0A])
                  @ exc_message e @ ([CHR 0x0A] @ ''stacktrace:'' @ [CHR 0x0A] @ format_exc ev e)"
      by (simp add: msg)
    then show "str_in (exc_message e) (msg e)"
      using str_in_append by metis
    have "msg e = (job @ '' error while processing '' @ job @ '':'' @ [CHR 0x0A]
                   @ exc_message e @ [CHR 0x0A] @ ''stacktrace:'' @ [CHR 0x0A])
                  @ format_exc ev e @ []"
      by (simp add: msg)
    then show "str_in (format_exc ev e) (msg e)"
      using str_in_append by metis
  qed
  have c4: "\<forall>u wm e.
         mkdir_exist_ok (batch_dir_of ''light'' height step_size)
           (w\<lparr>logged := logged w @ [(DEBUG, job @ '' proving...'')]\<rparr>) = (Inr u, wm)
         \<and> generate_data ev ''light'' height step_size True = Inl e
        \<longrightarrow> prove_batch ev height step_size w
            = (Inr False,
               wm\<lparr>logged := logged wm
                  @ [(DEBUG, job @ '' generating data...''), (ERROR, msg e)]\<rparr>)"
  proof (intro allI impI)
    fix u wm e
    assume a: "mkdir_exist_ok (batch_dir_of ''light'' height step_size)
           (w\<lparr>logged := logged w @ [(DEBUG, job @ '' proving...'')]\<rparr>) = (Inr u, wm)
         \<and> generate_data ev ''light'' height step_size True = Inl e"
    then have "prove_batch_body ev height step_size
          (w\<lparr>logged := logged w @ [(DEBUG, job @ '' proving...'')]\<rparr>)
          = (Inl e, wm\<lparr>logged := logged wm @ [(DEBUG, job @ '' generating data...'')]\<rparr>)"
      by (simp add: prove_batch_body_def prepare_batch_def Let_def log_msg_def j)
    from caught [OF this]
    show "prove_batch ev height step_size w
            = (Inr False,
               wm\<lparr>logged := logged wm
                  @ [(DEBUG, job @ '' generating data...''), (ERROR, msg e)]\<rparr>)"
      by simp
  qed
  have c5: "(\<exists>e. generate_data ev ''light'' height step_size True = Inl e)
        \<longrightarrow> fst (prove_batch ev height step_size w) = Inr False"
  proof
    assume "\<exists>e. generate_data ev ''light'' height step_size True = Inl e"
    then obtain e where "generate_data ev ''light'' height step_size True = Inl e" by blast
    from prepare_batch_data_raises [OF this] obtain e' w' where
      "prepare_batch ev height step_size
         (log_msg DEBUG (job_info_of height step_size @ '' proving...'') w) = (Inl e', w')"
      by blast
    from prove_batch_caught [OF prove_batch_body_prepare_raises [OF this]]
    show "fst (prove_batch ev height step_size w) = Inr False" by simp
  qed
  have c6: "(\<forall>f p q. \<exists>e. generate_assumevalid_args ev f p q = Inl e)
        \<longrightarrow> fst (prove_batch ev height step_size w) = Inr False"
  proof
    assume "\<forall>f p q. \<exists>e. generate_assumevalid_args ev f p q = Inl e"
    from prepare_batch_args_raises [OF this] obtain e' w' where
      "prepare_batch ev height step_size
         (log_msg DEBUG (job_info_of height step_size @ '' proving...'') w) = (Inl e', w')"
      by blast
    from prove_batch_caught [OF prove_batch_body_prepare_raises [OF this]]
    show "fst (prove_batch ev height step_size w) = Inr False" by simp
  qed
  have c7: "\<forall>u w1 e w2.
         prepare_batch ev height step_size
           (w\<lparr>logged := logged w @ [(DEBUG, job @ '' proving...'')]\<rparr>) = (Inr u, w1)
         \<and> run_prover ev job ''../../target/proving/assumevalid.executable.json''
             (path_str (path_div (batch_dir_of ''light'' height step_size) ''proof.json''))
             (path_str (path_div (batch_dir_of ''light'' height step_size) ''arguments.json'')) w1
           = (Inl e, w2)
        \<longrightarrow> prove_batch ev height step_size w
            = (Inr False, w2\<lparr>logged := logged w2 @ [(ERROR, msg e)]\<rparr>)"
  proof (intro allI impI)
    fix u w1 e w2
    assume "prepare_batch ev height step_size
           (w\<lparr>logged := logged w @ [(DEBUG, job @ '' proving...'')]\<rparr>) = (Inr u, w1)
         \<and> run_prover ev job ''../../target/proving/assumevalid.executable.json''
             (path_str (path_div (batch_dir_of ''light'' height step_size) ''proof.json''))
             (path_str (path_div (batch_dir_of ''light'' height step_size) ''arguments.json'')) w1
           = (Inl e, w2)"
    then have "prove_batch_body ev height step_size
                 (w\<lparr>logged := logged w @ [(DEBUG, job @ '' proving...'')]\<rparr>) = (Inl e, w2)"
      unfolding j using prove_batch_body_pipeline_raises by blast
    from caught [OF this]
    show "prove_batch ev height step_size w
            = (Inr False, w2\<lparr>logged := logged w2 @ [(ERROR, msg e)]\<rparr>)" .
  qed
  show ?thesis by (intro conjI c1 c2 c3 c4 c5 c6 c7)
qed


lemma str_int_small0: "str_int 0 = ''0''" "str_int 10 = ''10''"
  by (simp_all add: str_int_def str_nat.simps digit_char_def)

theorem prove_batch_catches_exceptions_witness:
  "generate_data no_data_env ''light'' 0 10 True = Inl (OtherException ''rpc down'')
   \<and> prove_batch no_data_env 0 10 sample_world
     = (Inr False,
        sample_world\<lparr>logged :=
          [(DEBUG, ''Job(height='' @ [CHR 0x27] @ ''0'' @ [CHR 0x27] @ '', blocks=10) proving...''),
           (DEBUG, ''Job(height='' @ [CHR 0x27] @ ''0'' @ [CHR 0x27]
                   @ '', blocks=10) generating data...''),
           (ERROR, ''Job(height='' @ [CHR 0x27] @ ''0'' @ [CHR 0x27]
                   @ '', blocks=10) error while processing Job(height='' @ [CHR 0x27] @ ''0''
                   @ [CHR 0x27] @ '', blocks=10):'' @ [CHR 0x0A] @ ''rpc down'' @ [CHR 0x0A]
                   @ ''stacktrace:'' @ [CHR 0x0A] @ ''Traceback'')]\<rparr>)"
proof -
  let ?job = "''Job(height='' @ [CHR 0x27] @ str_int 0 @ [CHR 0x27]
              @ '', blocks='' @ str_int 10 @ '')''"
  let ?msg = "\<lambda>e. ?job @ '' error while processing '' @ ?job @ '':'' @ [CHR 0x0A]
                 @ exc_message e @ [CHR 0x0A] @ ''stacktrace:'' @ [CHR 0x0A]
                 @ format_exc no_data_env e"
  note t = prove_batch_catches_exceptions
    [where job = ?job and height = 0 and step_size = 10 and msg = ?msg and ev = no_data_env
       and w = sample_world, OF refl refl]
  have g: "generate_data no_data_env ''light'' 0 10 True = Inl (OtherException ''rpc down'')"
    by (simp add: no_data_env_def)
  have bd: "batch_dir_of ''light'' 0 10 = [''.proofs'', ''light_0_to_10'']"
    by (simp add: batch_dir_of_def PROOF_DIR_def path_div_def str_int_small0)
  have m: "mkdir_exist_ok (batch_dir_of ''light'' 0 10)
             (sample_world\<lparr>logged := logged sample_world @ [(DEBUG, ?job @ '' proving...'')]\<rparr>)
           = (Inr (), sample_world\<lparr>logged := logged sample_world
                                     @ [(DEBUG, ?job @ '' proving...'')]\<rparr>)"
    by (simp add: bd mkdir_exist_ok_def sample_world_def sample_fs_def is_dir_def)
  have "prove_batch no_data_env 0 10 sample_world
        = (Inr False,
           (sample_world\<lparr>logged := logged sample_world @ [(DEBUG, ?job @ '' proving...'')]\<rparr>)
             \<lparr>logged := logged (sample_world\<lparr>logged := logged sample_world
                                   @ [(DEBUG, ?job @ '' proving...'')]\<rparr>)
                @ [(DEBUG, ?job @ '' generating data...''),
                   (ERROR, ?msg (OtherException ''rpc down''))]\<rparr>)"
    using t [THEN conjunct2, THEN conjunct2, THEN conjunct2, THEN conjunct1] m g by blast
  then show ?thesis
    using g by (simp add: sample_world_def str_int_small0 no_data_env_def quiet_env_def
        example_env_def)
qed

lemma not_top_snoc: "bd \<noteq> [] \<Longrightarrow> \<not> is_top (bd @ [n])"
  by (cases bd) (auto simp: is_top_def split: list.splits)

lemma parent_snoc: "bd \<noteq> [] \<Longrightarrow> parent (bd @ [n]) = bd"
  by (simp add: parent_def not_top_snoc)

lemma ready_update:
  assumes "batch_dir_ready f bd"
  shows "batch_dir_ready (AList.update (bd @ [n]) (File t) f) bd"
  using assms by (auto simp: batch_dir_ready_def is_dir_update not_top_snoc)

lemma write_text_ok:
  assumes "batch_dir_ready (fs w) bd"
  shows "\<exists>w1. write_text (bd @ [n]) txt w = (Inr (), w1) \<and> batch_dir_ready (fs w1) bd"
  using assms ready_update [OF assms]
  by (simp add: write_text_def write_file_def parent_snoc batch_dir_ready_def emit_def)

lemma mkdir_ready:
  assumes "bd \<noteq> []" and "is_dir (fs w) (parent bd)"
    and "\<not> path_exists (fs w) bd" and "\<forall>n. \<not> is_dir (fs w) (bd @ [n])"
  shows "\<exists>w1. mkdir_exist_ok bd w = (Inr (), w1) \<and> batch_dir_ready (fs w1) bd"
  using assms
  by (auto simp: mkdir_exist_ok_def batch_dir_ready_def is_dir_def path_exists_def emit_def
      map_add_def not_top_snoc split: option.splits)

lemma run_and_log_ready:
  assumes "platform_system ev = ''Linux''"
    and "\<And>c f. subprocess_run ev c None f = (Exited out err 0, f, d)"
    and "batch_dir_ready (fs w) bd"
  shows "\<exists>info w'. run_and_log ev job bd name cmd w = (Inr info, w')
           \<and> returncode info = 0 \<and> batch_dir_ready (fs w') bd"
proof -
  have "\<exists>info w'. run_and_log ev job bd name cmd w = (Inr info, w')
           \<and> returncode info = 0
           \<and> (\<exists>txt. fs w' = AList.update (log_path bd name) (File txt) (fs w))"
    using assms(3)
    by (intro run_and_log_ok [OF assms(1) assms(2)])
      (simp_all add: batch_dir_ready_def log_path_def path_div_def)
  then obtain info w' lt where
    "run_and_log ev job bd name cmd w = (Inr info, w')" "returncode info = 0"
    "fs w' = AList.update (bd @ [str_lower name @ ''.log'']) (File lt) (fs w)"
    by (auto simp: log_path_def path_div_def)
  with ready_update [OF assms(3)] show ?thesis by auto
qed

lemma run_prover_ok:
  assumes lin: "platform_system ev = ''Linux''"
    and sp: "\<And>c f. subprocess_run ev c None f = (Exited out err 0, f, d)"
    and rd: "batch_dir_ready (fs w) (parent (path_of_str proof))"
  shows "\<exists>steps w'. run_prover ev job exe proof args w = (Inr steps, w')
           \<and> steps \<noteq> [] \<and> returncode (last steps) = 0"
proof -
  let ?bd = "parent (path_of_str proof)"
  let ?cmds = "pipeline_cmds exe proof args"
  from run_and_log_ready [OF lin sp rd] obtain i1 w1 where
    r1: "run_and_log ev job ?bd ''PIE'' (?cmds ! 0) w = (Inr i1, w1)" "returncode i1 = 0"
    and d1: "batch_dir_ready (fs w1) ?bd" by blast
  from run_and_log_ready [OF lin sp d1] obtain i2 w2 where
    r2: "run_and_log ev job ?bd ''BOOTLOAD'' (?cmds ! 1) w1 = (Inr i2, w2)" "returncode i2 = 0"
    and d2: "batch_dir_ready (fs w2) ?bd" by blast
  from run_and_log_ready [OF lin sp d2] obtain i3 w3 where
    r3: "run_and_log ev job ?bd ''PROVE'' (?cmds ! 2) w2 = (Inr i3, w3)" "returncode i3 = 0"
    by blast
  from run_prover_all_ok [OF r1 r2 r3(1)] r3(2) show ?thesis by simp
qed

lemma prepare_batch_ok:
  assumes gd: "generate_data ev ''light'' h s True
               = Inr (JObj [(''chain_state'', a), (''blocks'', b)])"
    and ga: "\<And>f p q. generate_assumevalid_args ev f p q = Inr args"
    and pd: "is_dir (fs w) PROOF_DIR"
    and fresh: "\<not> path_exists (fs w) (batch_dir_of ''light'' h s)"
               "\<forall>n. \<not> is_dir (fs w) (batch_dir_of ''light'' h s @ [n])"
  shows "\<exists>w1. prepare_batch ev h s w = (Inr (), w1)
           \<and> batch_dir_ready (fs w1) (batch_dir_of ''light'' h s)"
proof -
  let ?bd = "batch_dir_of ''light'' h s"
  have ne: "?bd \<noteq> []" and par: "parent ?bd = PROOF_DIR"
    by (simp_all add: batch_dir_of_def path_div_def parent_def is_top_def PROOF_DIR_def)
  from mkdir_ready [OF ne _ fresh] pd par obtain w1 where
    m: "mkdir_exist_ok ?bd w = (Inr (), w1)" and d1: "batch_dir_ready (fs w1) ?bd" by auto
  let ?w2 = "log_msg DEBUG (job_info_of h s @ '' generating data...'') w1"
  have d2: "batch_dir_ready (fs ?w2) ?bd" using d1 by (simp add: log_msg_def)
  from write_text_ok [OF d2] obtain w3 where
    w3: "write_text (?bd @ [''batch.json''])
           (json_dumps ev (JObj [(''chain_state'', a), (''blocks'', b)]) (Some 2)) ?w2 = (Inr (), w3)"
    and d3: "batch_dir_ready (fs w3) ?bd" by blast
  let ?w4 = "log_msg DEBUG (job_info_of h s @ '' generating args...'') w3"
  have d4: "batch_dir_ready (fs ?w4) ?bd" using d3 by (simp add: log_msg_def)
  from write_text_ok [OF d4] obtain w5 where
    w5: "write_text (?bd @ [''arguments.json'']) (json_dumps ev args None) ?w4 = (Inr (), w5)"
    and d5: "batch_dir_ready (fs w5) ?bd" by blast
  have "prepare_batch ev h s w = (Inr (), w5)"
    using m gd ga w3 w5 by (simp add: prepare_batch_def Let_def path_div_def)
  with d5 show ?thesis by blast
qed

lemma prove_batch_ok:
  assumes lin: "platform_system ev = ''Linux''"
    and sp: "\<And>c f. subprocess_run ev c None f = (Exited out err 0, f, d)"
    and gd: "generate_data ev ''light'' h s True
               = Inr (JObj [(''chain_state'', a), (''blocks'', b)])"
    and ga: "\<And>f p q. generate_assumevalid_args ev f p q = Inr args"
    and pd: "is_dir (fs w) PROOF_DIR"
    and fresh: "\<not> path_exists (fs w) (batch_dir_of ''light'' h s)"
               "\<forall>n. \<not> is_dir (fs w) (batch_dir_of ''light'' h s @ [n])"
    and rt: "parent (path_of_str (path_str (path_div (batch_dir_of ''light'' h s) ''proof.json'')))
             = batch_dir_of ''light'' h s"
  shows "\<exists>w'. prove_batch ev h s w = (Inr True, w')"
proof -
  let ?bd = "batch_dir_of ''light'' h s"
  let ?w0 = "log_msg DEBUG (job_info_of h s @ '' proving...'') w"
  have f0: "fs ?w0 = fs w" by (simp add: log_msg_def)
  from prepare_batch_ok [of ev h s a b args ?w0] gd ga pd fresh obtain w1 where
    p: "prepare_batch ev h s ?w0 = (Inr (), w1)" and d1: "batch_dir_ready (fs w1) ?bd"
    unfolding f0 by blast
  from run_prover_ok [OF lin sp, of w1 "path_str (path_div ?bd ''proof.json'')"] d1 rt
  obtain steps w2 where
    rp: "run_prover ev (job_info_of h s) ''../../target/proving/assumevalid.executable.json''
           (path_str (path_div ?bd ''proof.json''))
           (path_str (path_div ?bd ''arguments.json'')) w1 = (Inr steps, w2)"
    and st: "steps \<noteq> []" "returncode (last steps) = 0"
    by metis
  have "\<exists>w3. prove_batch_body ev h s ?w0 = (Inr True, w3)"
    using p rp st by (simp add: prove_batch_body_def finish_batch_def Let_def)
  then show ?thesis by (auto simp: prove_batch_def Let_def)
qed

lemma main_loop_fail_second:
  assumes "prove_batch ev h0 s w = (Inr True, w1)"
    and "prove_batch ev h1 s w1 = (Inr False, w2)"
  shows "main_loop ev s (h0 # h1 # rest) n w
         = (Inr (StoppedAt h1 (n + 1)),
            log_msg INFO
              (''Job at height: '' @ str_int h1 @ '' failed, stopping further processing'') w2)"
  using assms by simp

text \<open>
  C4 (amended). In a run whose heights begin with \<open>h0\<close>, \<open>h1\<close>, where the batch at \<open>h0\<close>
  succeeds and the batch at \<open>h1\<close> fails, \<^verbatim>\<open>main\<close> attempts \<open>h0\<close>, then \<open>h1\<close>, then stops: the
  world it leaves is the world the batch at \<open>h1\<close> left, with one more message, which names
  the failed height.  No later height is attempted; the local count of processed batches is
  1 and is not logged.
\<close>

theorem main_fail_stop:
  assumes "mkdir_exist_ok PROOF_DIR
             (log_msg INFO (''Initial height: '' @ str_int start @ '', blocks: '' @ str_int blocks
                            @ '', step: '' @ str_int step_size) w) = (Inr u, wa)"
    and "py_range start (start + blocks) step_size = Inr (h0 # h1 # rest)"
    and "prove_batch ev h0 step_size wa = (Inr True, w1)"
    and "prove_batch ev h1 step_size w1 = (Inr False, w2)"
  shows "main ev start blocks step_size w
         = (Inr (StoppedAt h1 1),
            log_msg INFO
              (''Job at height: '' @ str_int h1 @ '' failed, stopping further processing'') w2)
         \<and> logged (snd (main ev start blocks step_size w))
             = logged w2
               @ [(INFO, ''Job at height: '' @ str_int h1 @ '' failed, stopping further processing'')]
         \<and> effects (snd (main ev start blocks step_size w)) = effects w2
         \<and> fs (snd (main ev start blocks step_size w)) = fs w2"
proof -
  have "main ev start blocks step_size w
         = (Inr (StoppedAt h1 1),
            log_msg INFO
              (''Job at height: '' @ str_int h1 @ '' failed, stopping further processing'') w2)"
    using assms main_loop_fail_second [OF assms(3,4), of rest 0]
    by (simp add: main_def Let_def del: main_loop.simps)
  then show ?thesis by (simp add: log_msg_def)
qed


lemma prove_batch_data_raises:
  assumes "generate_data ev ''light'' h s True = Inl e"
  shows "fst (prove_batch ev h s w) = Inr False"
proof -
  from prepare_batch_data_raises [OF assms] obtain e' w' where
    "prepare_batch ev h s (log_msg DEBUG (job_info_of h s @ '' proving...'') w) = (Inl e', w')"
    by blast
  from prove_batch_caught [OF prove_batch_body_prepare_raises [OF this]]
  show ?thesis by simp
qed

lemma str_int_more: "str_int 60 = ''60''" "str_int 40 = ''40''"
  by (simp_all add: str_int_def str_nat.simps digit_char_def)

lemma sample_run_batches:
  "\<exists>w1 w2. prove_batch no_data_at_20_env 0 20 sample_start_world = (Inr True, w1)
           \<and> prove_batch no_data_at_20_env 20 20 w1 = (Inr False, w2)"
proof -
  let ?ev = no_data_at_20_env
  have bd: "batch_dir_of ''light'' 0 20 = [''.proofs'', ''light_0_to_20'']"
    by (simp add: batch_dir_of_def PROOF_DIR_def path_div_def str_int_small)
  have f: "fs sample_start_world = [([''.proofs''], Dir)]"
    by (simp add: sample_start_world_def proofs_only_world_def log_msg_def)
  have "\<exists>w'. prove_batch ?ev 0 20 sample_start_world = (Inr True, w')"
  proof (rule prove_batch_ok)
    show "platform_system ?ev = ''Linux''" by (simp add: no_data_at_20_env_def)
    show "subprocess_run ?ev c None f = (Exited [] [] 0, f, 1)" for c f
      by (simp add: no_data_at_20_env_def)
    show "generate_data ?ev ''light'' 0 20 True
          = Inr (JObj [(''chain_state'', JNull), (''blocks'', JArr [])])"
      by (simp add: no_data_at_20_env_def)
    show "generate_assumevalid_args ?ev f p q = Inr (JArr [])" for f p q
      by (simp add: no_data_at_20_env_def)
    show "is_dir (fs sample_start_world) PROOF_DIR"
      by (simp add: f is_dir_def PROOF_DIR_def)
    show "\<not> path_exists (fs sample_start_world) (batch_dir_of ''light'' 0 20)"
      by (simp add: f bd path_exists_def is_top_def)
    show "\<forall>n. \<not> is_dir (fs sample_start_world) (batch_dir_of ''light'' 0 20 @ [n])"
      by (simp add: f bd is_dir_def is_top_def)
    show "parent (path_of_str (path_str (path_div (batch_dir_of ''light'' 0 20) ''proof.json'')))
          = batch_dir_of ''light'' 0 20"
      by (simp add: bd path_div_def path_str_def is_anchor_def path_of_str_def parent_def is_top_def)
  qed
  then obtain w1 where b0: "prove_batch ?ev 0 20 sample_start_world = (Inr True, w1)" by blast
  have "fst (prove_batch ?ev 20 20 w1) = Inr False"
    by (rule prove_batch_data_raises [of _ _ _ "OtherException ''rpc down''"])
      (simp add: no_data_at_20_env_def quiet_env_def example_env_def)
  then obtain w2 where "prove_batch ?ev 20 20 w1 = (Inr False, w2)"
    by (cases "prove_batch ?ev 20 20 w1") auto
  with b0 show ?thesis by blast
qed

lemma sample_run_start:
  "mkdir_exist_ok PROOF_DIR
     (log_msg INFO (''Initial height: '' @ str_int 0 @ '', blocks: '' @ str_int 60
                    @ '', step: '' @ str_int 20) proofs_only_world)
   = (Inr (), sample_start_world)"
  by (simp add: str_int_small str_int_more sample_start_world_def mkdir_exist_ok_def
      log_msg_def proofs_only_world_def is_dir_def PROOF_DIR_def)

theorem main_fail_stop_witness:
  "\<exists>w1 w2. prove_batch no_data_at_20_env 0 20 sample_start_world = (Inr True, w1)
     \<and> prove_batch no_data_at_20_env 20 20 w1 = (Inr False, w2)
     \<and> main no_data_at_20_env 0 60 20 proofs_only_world
       = (Inr (StoppedAt 20 1),
          log_msg INFO ''Job at height: 20 failed, stopping further processing'' w2)"
proof -
  from sample_run_batches obtain w1 w2 where
    b: "prove_batch no_data_at_20_env 0 20 sample_start_world = (Inr True, w1)"
       "prove_batch no_data_at_20_env 20 20 w1 = (Inr False, w2)" by blast
  have r: "py_range 0 (0 + 60) 20 = Inr (0 # 20 # [40])"
    by (simp add: py_range_examples)
  from main_fail_stop [OF sample_run_start r b] b show ?thesis
    by (auto simp: str_int_small)
qed

text \<open>
  C4 as stated fails.  Heights 0, 20 and 40, the batch at 20 failing: all that \<^verbatim>\<open>main\<close> logs
  after that batch is one message, in which neither the word processed nor the count 1
  occurs.
\<close>

theorem main_reports_no_count:
  "\<exists>w1 w2. prove_batch no_data_at_20_env 0 20 sample_start_world = (Inr True, w1)
     \<and> prove_batch no_data_at_20_env 20 20 w1 = (Inr False, w2)
     \<and> fst (main no_data_at_20_env 0 60 20 proofs_only_world) = Inr (StoppedAt 20 1)
     \<and> logged (snd (main no_data_at_20_env 0 60 20 proofs_only_world))
       = logged w2 @ [(INFO, ''Job at height: 20 failed, stopping further processing'')]
     \<and> \<not> str_in ''processed'' ''Job at height: 20 failed, stopping further processing''
     \<and> \<not> str_in ''1'' ''Job at height: 20 failed, stopping further processing''"
proof -
  from sample_run_batches obtain w1 w2 where
    b: "prove_batch no_data_at_20_env 0 20 sample_start_world = (Inr True, w1)"
       "prove_batch no_data_at_20_env 20 20 w1 = (Inr False, w2)" by blast
  have "main no_data_at_20_env 0 60 20 proofs_only_world
        = (Inr (StoppedAt 20 1),
           log_msg INFO ''Job at height: 20 failed, stopping further processing'' w2)"
    using sample_run_start main_loop_fail_second [OF b, of "[40]" 0]
    by (simp add: main_def Let_def py_range_examples str_int_small del: main_loop.simps)
  moreover have "\<not> str_in ''processed'' ''Job at height: 20 failed, stopping further processing''"
    "\<not> str_in ''1'' ''Job at height: 20 failed, stopping further processing''"
    by simp_all
  ultimately show ?thesis using b by (auto simp: log_msg_def)
qed

section \<open>Cleanup of the intermediate files: properties\<close>


lemma fs_log_msg [simp]: "fs (log_msg lv m w) = fs w"
  by (simp add: log_msg_def)

lemma fs_emit [simp]: "fs (emit e w) = fs w"
  by (simp add: emit_def)

lemma logged_log_msg [simp]: "logged (log_msg lv m w) = logged w @ [(lv, m)]"
  by (simp add: log_msg_def)

lemma logged_emit [simp]: "logged (emit e w) = logged w"
  by (simp add: emit_def)

lemma unlink_all_map_of:
  "map_of (fs (unlink_all ev ts w)) p
   = (if p \<in> set ts \<and> \<not> is_dir (fs w) p \<and> \<not> unlink_denied ev p then None
      else map_of (fs w) p)"
proof (induction ts arbitrary: w)
  case Nil
  show ?case by simp
next
  case (Cons t ts)
  show ?case
  proof (cases "path_exists (fs w) t")
    case False
    then show ?thesis using Cons [of w] by (auto simp: path_exists_def is_dir_def)
  next
    case True
    show ?thesis
    proof (cases "unlink ev t (fs w)")
      case (Inl e)
      let ?w = "log_msg WARNING (''Failed to clean up '' @ path_str t @ '': '' @ exc_message e) w"
      have u: "unlink_all ev (t # ts) w = unlink_all ev ts ?w"
        using True Inl by simp
      have "is_dir (fs w) t \<or> unlink_denied ev t"
        using True Inl by (auto simp: unlink_def split: if_splits)
      then show ?thesis unfolding u using Cons [of ?w] by auto
    next
      case (Inr f')
      then have nd: "\<not> is_dir (fs w) t" "\<not> unlink_denied ev t"
        and f': "f' = AList.delete t (fs w)"
        by (auto simp: unlink_def split: if_splits)
      let ?w = "log_msg DEBUG (''Cleaned up temporary file: '' @ path_str t)
                  (emit (Unlink t) (w\<lparr>fs := f'\<rparr>))"
      have u: "unlink_all ev (t # ts) w = unlink_all ev ts ?w"
        using True Inr by simp
      have d: "is_dir (AList.delete t (fs w)) q = is_dir (fs w) q" for q
        using nd by (auto simp: is_dir_def delete_conv')
      show ?thesis
        unfolding u using Cons [of ?w] nd
        by (auto simp: f' d delete_conv')
    qed
  qed
qed

lemma unlink_all_exists_mono:
  "path_exists (fs (unlink_all ev ts w)) p \<Longrightarrow> path_exists (fs w) p"
  by (auto simp: path_exists_def unlink_all_map_of split: if_splits)

lemma unlink_all_absent_or_logged:
  "\<exists>xs. logged (unlink_all ev ts w) = logged w @ xs
        \<and> (\<forall>p \<in> set ts. \<not> path_exists (fs (unlink_all ev ts w)) p
              \<or> (\<exists>e. (WARNING, ''Failed to clean up '' @ path_str p @ '': '' @ exc_message e)
                       \<in> set xs))"
proof (induction ts arbitrary: w)
  case Nil
  show ?case by simp
next
  case (Cons t ts)
  show ?case
  proof (cases "path_exists (fs w) t")
    case False
    from Cons [of w] obtain xs where
      xs: "logged (unlink_all ev ts w) = logged w @ xs"
      "\<forall>p \<in> set ts. \<not> path_exists (fs (unlink_all ev ts w)) p
          \<or> (\<exists>e. (WARNING, ''Failed to clean up '' @ path_str p @ '': '' @ exc_message e)
                   \<in> set xs)"
      by blast
    have "\<not> path_exists (fs (unlink_all ev ts w)) t"
      using False unlink_all_exists_mono by blast
    with xs False show ?thesis by auto
  next
    case True
    show ?thesis
    proof (cases "unlink ev t (fs w)")
      case (Inl e)
      let ?m = "(WARNING, ''Failed to clean up '' @ path_str t @ '': '' @ exc_message e)"
      let ?w = "log_msg WARNING (''Failed to clean up '' @ path_str t @ '': '' @ exc_message e) w"
      have u: "unlink_all ev (t # ts) w = unlink_all ev ts ?w"
        using True Inl by simp
      from Cons [of ?w] obtain xs where
        xs: "logged (unlink_all ev ts ?w) = logged ?w @ xs"
        "\<forall>p \<in> set ts. \<not> path_exists (fs (unlink_all ev ts ?w)) p
            \<or> (\<exists>e. (WARNING, ''Failed to clean up '' @ path_str p @ '': '' @ exc_message e)
                     \<in> set xs)"
        by blast
      have "logged (unlink_all ev (t # ts) w) = logged w @ (?m # xs)"
        unfolding u xs(1) by simp
      moreover have "\<forall>p \<in> set (t # ts). \<not> path_exists (fs (unlink_all ev (t # ts) w)) p
            \<or> (\<exists>e'. (WARNING, ''Failed to clean up '' @ path_str p @ '': '' @ exc_message e')
                     \<in> set (?m # xs))"
        unfolding u using xs(2) by auto
      ultimately show ?thesis by blast
    next
      case (Inr f')
      then have f': "f' = AList.delete t (fs w)" and nd: "\<not> is_dir (fs w) t"
        by (auto simp: unlink_def split: if_splits)
      let ?w = "log_msg DEBUG (''Cleaned up temporary file: '' @ path_str t)
                  (emit (Unlink t) (w\<lparr>fs := f'\<rparr>))"
      have u: "unlink_all ev (t # ts) w = unlink_all ev ts ?w"
        using True Inr by simp
      from Cons [of ?w] obtain xs where
        xs: "logged (unlink_all ev ts ?w) = logged ?w @ xs"
        "\<forall>p \<in> set ts. \<not> path_exists (fs (unlink_all ev ts ?w)) p
            \<or> (\<exists>e. (WARNING, ''Failed to clean up '' @ path_str p @ '': '' @ exc_message e)
                     \<in> set xs)"
        by blast
      have "\<not> path_exists (fs ?w) t"
        using nd by (simp add: f' path_exists_def is_dir_def delete_conv')
      then have gone: "\<not> path_exists (fs (unlink_all ev ts ?w)) t"
        using unlink_all_exists_mono by blast
      let ?ys = "(DEBUG, ''Cleaned up temporary file: '' @ path_str t) # xs"
      have "logged (unlink_all ev (t # ts) w) = logged w @ ?ys"
        unfolding u xs(1) by simp
      moreover have "\<forall>p \<in> set (t # ts). \<not> path_exists (fs (unlink_all ev (t # ts) w)) p
            \<or> (\<exists>e'. (WARNING, ''Failed to clean up '' @ path_str p @ '': '' @ exc_message e')
                     \<in> set ?ys)"
        unfolding u using xs(2) gone by auto
      ultimately show ?thesis by blast
    qed
  qed
qed

lemma cleanup_map_of:
  "map_of (fs (cleanup ev bd w)) p
   = (if p \<in> set (temp_files ev (fs w) bd) \<and> \<not> is_dir (fs w) p \<and> \<not> unlink_denied ev p
      then None else map_of (fs w) p)"
proof -
  let ?priv = "path_div bd ''priv.json''"
  let ?w1 = "case snd (priv_temp_files ev (fs w) ?priv) of None \<Rightarrow> w
             | Some e \<Rightarrow> log_msg WARNING
                 (''Failed to parse '' @ path_str ?priv @ '' for cleanup: '' @ exc_message e) w"
  have e: "fs ?w1 = fs w" by (simp add: log_msg_def split: option.splits)
  show ?thesis
    unfolding cleanup_def Let_def using unlink_all_map_of [of ev "temp_files ev (fs w) bd" ?w1 p]
    by (simp add: e)
qed

lemma cleanup_exists_mono:
  "path_exists (fs (cleanup ev bd w)) p \<Longrightarrow> path_exists (fs w) p"
  by (auto simp: path_exists_def cleanup_map_of split: if_splits)

lemma cleanup_absent_or_logged:
  assumes "p \<in> set (temp_files ev (fs w) bd)"
  shows "\<not> path_exists (fs (cleanup ev bd w)) p
         \<or> (\<exists>e. (WARNING, ''Failed to clean up '' @ path_str p @ '': '' @ exc_message e)
                  \<in> set (drop (length (logged w)) (logged (cleanup ev bd w))))"
proof -
  let ?priv = "path_div bd ''priv.json''"
  let ?w1 = "case snd (priv_temp_files ev (fs w) ?priv) of None \<Rightarrow> w
             | Some e \<Rightarrow> log_msg WARNING
                 (''Failed to parse '' @ path_str ?priv @ '' for cleanup: '' @ exc_message e) w"
  have c: "cleanup ev bd w = unlink_all ev (temp_files ev (fs w) bd) ?w1"
    by (simp add: cleanup_def Let_def)
  obtain ys where ys: "logged ?w1 = logged w @ ys"
    by (cases "snd (priv_temp_files ev (fs w) ?priv)") simp_all
  from unlink_all_absent_or_logged [of ev "temp_files ev (fs w) bd" ?w1] obtain xs where
    xs: "logged (unlink_all ev (temp_files ev (fs w) bd) ?w1) = logged ?w1 @ xs"
    "\<forall>p \<in> set (temp_files ev (fs w) bd).
        \<not> path_exists (fs (unlink_all ev (temp_files ev (fs w) bd) ?w1)) p
        \<or> (\<exists>e. (WARNING, ''Failed to clean up '' @ path_str p @ '': '' @ exc_message e)
                 \<in> set xs)"
    by blast
  have d: "drop (length (logged w)) (logged (cleanup ev bd w)) = ys @ xs"
    unfolding c xs(1) ys by simp
  show ?thesis
    unfolding d using xs(2) assms unfolding c by auto
qed

lemma referenced_path_Inr:
  assumes "referenced_path d k = Inr ps" and "p \<in> set ps"
  shows "\<exists>kvs s. d = JObj kvs \<and> map_of kvs k = Some (JStr s) \<and> p = path_of_str s"
proof (cases d)
  case (JObj kvs)
  from assms obtain v where v: "map_of kvs k = Some v" "path_of_json v = Inr p"
    unfolding JObj referenced_path_def
    by (auto split: if_splits option.splits sum.splits bool.splits)
  then obtain s where "v = JStr s" "p = path_of_str s"
    by (cases v) auto
  with v JObj show ?thesis by simp
qed (use assms in \<open>auto simp: referenced_path_def split: if_splits bool.splits\<close>)

lemma read_file_exists:
  "read_file p f = Inr content \<Longrightarrow> path_exists f p"
  by (auto simp: read_file_def path_exists_def split: if_splits option.splits node.splits)

lemma temp_files_fixed:
  "path_div bd ''pie.cairo_pie.zip'' \<in> set (temp_files ev f bd)"
  "path_div bd ''pub.json'' \<in> set (temp_files ev f bd)"
  "path_exists f (path_div bd ''priv.json'')
   \<Longrightarrow> path_div bd ''priv.json'' \<in> set (temp_files ev f bd)"
  by (auto simp: temp_files_def priv_temp_files_def split: sum.splits)

lemma temp_files_trace:
  assumes "read_file (path_div bd ''priv.json'') f = Inr content"
    and "json_load ev content = Inr (JObj kvs)"
    and "map_of kvs ''trace_path'' = Some (JStr s)"
  shows "path_of_str s \<in> set (temp_files ev f bd)"
proof -
  have k: "''trace_path'' \<in> fst ` set kvs"
    using assms(3) by (auto dest: map_of_SomeD intro: rev_image_eqI)
  then have "referenced_path (JObj kvs) ''trace_path'' = Inr [path_of_str s]"
    using assms(3) by (simp add: referenced_path_def)
  then show ?thesis
    using assms(1,2) read_file_exists [OF assms(1)]
    by (simp add: temp_files_def priv_temp_files_def split: sum.splits)
qed

lemma temp_files_memory:
  assumes "read_file (path_div bd ''priv.json'') f = Inr content"
    and "json_load ev content = Inr (JObj kvs)"
    and "map_of kvs ''memory_path'' = Some (JStr s)"
    and "''trace_path'' \<notin> fst ` set kvs \<or> (\<exists>t. map_of kvs ''trace_path'' = Some (JStr t))"
  shows "path_of_str s \<in> set (temp_files ev f bd)"
proof -
  have k: "''memory_path'' \<in> fst ` set kvs"
    using assms(3) by (auto dest: map_of_SomeD intro: rev_image_eqI)
  then have m: "referenced_path (JObj kvs) ''memory_path'' = Inr [path_of_str s]"
    using assms(3) by (simp add: referenced_path_def)
  from assms(4) obtain tp where "referenced_path (JObj kvs) ''trace_path'' = Inr tp"
  proof
    assume "''trace_path'' \<notin> fst ` set kvs"
    then have "referenced_path (JObj kvs) ''trace_path'' = Inr []"
      by (simp add: referenced_path_def)
    then show ?thesis using that by blast
  next
    assume "\<exists>t. map_of kvs ''trace_path'' = Some (JStr t)"
    then obtain t where t: "map_of kvs ''trace_path'' = Some (JStr t)" by blast
    then have "''trace_path'' \<in> fst ` set kvs"
      by (auto dest: map_of_SomeD intro: rev_image_eqI)
    then have "referenced_path (JObj kvs) ''trace_path'' = Inr [path_of_str t]"
      using t by (simp add: referenced_path_def)
    then show ?thesis using that by blast
  qed
  then show ?thesis
    using m assms(1,2) read_file_exists [OF assms(1)]
    by (simp add: temp_files_def priv_temp_files_def split: sum.splits)
qed

lemma temp_files_subset:
  assumes "p \<in> set (temp_files ev f bd)"
  shows "p \<in> {path_div bd ''pie.cairo_pie.zip'', path_div bd ''pub.json'',
              path_div bd ''priv.json''}
         \<or> (\<exists>content kvs k s. read_file (path_div bd ''priv.json'') f = Inr content
               \<and> json_load ev content = Inr (JObj kvs)
               \<and> (k = ''trace_path'' \<or> k = ''memory_path'')
               \<and> map_of kvs k = Some (JStr s) \<and> p = path_of_str s)"
proof (cases "p \<in> {path_div bd ''pie.cairo_pie.zip'', path_div bd ''pub.json'',
                     path_div bd ''priv.json''}")
  case True
  then show ?thesis by blast
next
  case False
  let ?priv = "path_div bd ''priv.json''"
  from assms False have pin: "p \<in> set (fst (priv_temp_files ev f ?priv))"
    by (auto simp: temp_files_def)
  from pin False obtain content where rd: "read_file ?priv f = Inr content"
    by (cases "read_file ?priv f") (auto simp: priv_temp_files_def split: if_splits)
  from pin False rd obtain d where jl: "json_load ev content = Inr d"
    by (cases "json_load ev content") (auto simp: priv_temp_files_def split: if_splits)
  from pin False rd jl obtain tp where tp: "referenced_path d ''trace_path'' = Inr tp"
    by (cases "referenced_path d ''trace_path''") (auto simp: priv_temp_files_def split: if_splits)
  have "p \<in> set tp \<or> (\<exists>mp. referenced_path d ''memory_path'' = Inr mp \<and> p \<in> set mp)"
    using pin False rd jl tp
    by (cases "referenced_path d ''memory_path''") (auto simp: priv_temp_files_def split: if_splits)
  then show ?thesis
  proof
    assume "p \<in> set tp"
    from referenced_path_Inr [OF tp this] rd jl show ?thesis by blast
  next
    assume "\<exists>mp. referenced_path d ''memory_path'' = Inr mp \<and> p \<in> set mp"
    then obtain mp where "referenced_path d ''memory_path'' = Inr mp" "p \<in> set mp" by blast
    from referenced_path_Inr [OF this] rd jl show ?thesis by blast
  qed
qed

lemma temp_files_parsed:
  assumes "map_of f (path_div bd ''priv.json'') = Some (File txt)"
    and "json_load ev txt = Inr (JObj kvs)"
    and "map_of kvs ''trace_path'' = Some (JStr t)"
    and "map_of kvs ''memory_path'' = Some (JStr m)"
  shows "temp_files ev f bd
         = [path_div bd ''pie.cairo_pie.zip'', path_div bd ''pub.json'',
            path_of_str t, path_of_str m, path_div bd ''priv.json'']"
proof -
  have nt: "\<not> is_top (path_div bd ''priv.json'')"
    by (cases bd) (auto simp: path_div_def is_top_def is_anchor_def split: list.splits)
  have k: "''trace_path'' \<in> fst ` set kvs" "''memory_path'' \<in> fst ` set kvs"
    using assms(3,4) by (auto dest: map_of_SomeD intro: rev_image_eqI)
  show ?thesis
    using assms nt k
    by (simp add: temp_files_def priv_temp_files_def path_exists_def read_file_def is_dir_def
        referenced_path_def)
qed

lemma cleanup_fs_nodes:
  "map_of cleanup_fs [''.proofs'', ''light_0_to_10'', ''arguments.json''] = Some (File ''[]'')"
  "map_of cleanup_fs [''.proofs'', ''light_0_to_10'', ''proof.json''] = Some (File ''proof'')"
  "map_of cleanup_fs [''.proofs'', ''light_0_to_10'', ''pie.cairo_pie.zip''] = Some (File ''pie'')"
  "map_of cleanup_fs [''.proofs'', ''light_0_to_10'', ''pub.json''] = Some (File ''pub'')"
  "map_of cleanup_fs [''.proofs'', ''light_0_to_10'', ''priv.json''] = Some (File ''priv'')"
  "map_of cleanup_fs [''/'', ''tmp'', ''trace.bin''] = Some (File ''trace'')"
  "map_of cleanup_fs [''/'', ''tmp'', ''memory.bin''] = Some (File ''memory'')"
  by (simp_all add: cleanup_fs_def)

lemma sample_tmp_paths:
  "path_of_str ''/tmp/trace.bin'' = [''/'', ''tmp'', ''trace.bin'']"
  "path_of_str ''/tmp/memory.bin'' = [''/'', ''tmp'', ''memory.bin'']"
  by (simp_all add: path_of_str_def)

lemma run_and_log_frame:
  assumes "platform_system ev = ''Linux''"
    and "\<And>c f. subprocess_run ev c None f = (Exited out err 0, f, d)"
    and "batch_dir_ready (fs w) bd"
  shows "\<exists>info w'. run_and_log ev job bd name cmd w = (Inr info, w')
           \<and> returncode info = 0 \<and> batch_dir_ready (fs w') bd
           \<and> (\<forall>p. p \<noteq> log_path bd name \<longrightarrow> map_of (fs w') p = map_of (fs w) p)"
proof -
  have "\<exists>info w'. run_and_log ev job bd name cmd w = (Inr info, w')
           \<and> returncode info = 0
           \<and> (\<exists>lt. fs w' = AList.update (log_path bd name) (File lt) (fs w))"
    using assms(3)
    by (intro run_and_log_ok [OF assms(1) assms(2)])
      (simp_all add: batch_dir_ready_def log_path_def path_div_def)
  then obtain info w' lt where
    r: "run_and_log ev job bd name cmd w = (Inr info, w')" "returncode info = 0"
    and f: "fs w' = AList.update (log_path bd name) (File lt) (fs w)"
    by blast
  have "batch_dir_ready (fs w') bd"
    using ready_update [OF assms(3)] f by (simp add: log_path_def path_div_def)
  moreover have "\<forall>p. p \<noteq> log_path bd name \<longrightarrow> map_of (fs w') p = map_of (fs w) p"
    by (simp add: f update_conv')
  ultimately show ?thesis using r by blast
qed


lemma sample_cleanup_run:
  "\<exists>i1 i2 i3 w3.
     run_prover cleanup_env ''job'' ''exe'' sample_proof ''args'' cleanup_world
       = (Inr [i1, i2, i3], cleanup cleanup_env [''.proofs'', ''light_0_to_10''] w3)
     \<and> returncode i3 = 0
     \<and> map_of (fs w3) [''.proofs'', ''light_0_to_10'', ''arguments.json''] = Some (File ''[]'')
     \<and> map_of (fs w3) [''.proofs'', ''light_0_to_10'', ''proof.json''] = Some (File ''proof'')
     \<and> map_of (fs w3) [''.proofs'', ''light_0_to_10'', ''pie.cairo_pie.zip''] = Some (File ''pie'')
     \<and> map_of (fs w3) [''.proofs'', ''light_0_to_10'', ''pub.json''] = Some (File ''pub'')
     \<and> map_of (fs w3) [''.proofs'', ''light_0_to_10'', ''priv.json''] = Some (File ''priv'')
     \<and> map_of (fs w3) [''/'', ''tmp'', ''trace.bin''] = Some (File ''trace'')
     \<and> map_of (fs w3) [''/'', ''tmp'', ''memory.bin''] = Some (File ''memory'')"
proof -
  let ?ev = cleanup_env
  let ?bd = "[''.proofs'', ''light_0_to_10'']"
  let ?cmds = "pipeline_cmds ''exe'' sample_proof ''args''"
  have lin: "platform_system ?ev = ''Linux''" by (simp add: cleanup_env_def)
  have sp: "subprocess_run ?ev c None f = (Exited [] [] 0, f, 1)" for c f
    by (simp add: cleanup_env_def)
  have rd: "batch_dir_ready (fs cleanup_world) ?bd"
    by (simp add: batch_dir_ready_def cleanup_world_def cleanup_fs_def is_dir_def is_top_def)
  from run_and_log_frame [OF lin sp rd, of "''job''" "''PIE''" "?cmds ! 0"] obtain i1 w1 where
    r1: "run_and_log ?ev ''job'' ?bd ''PIE'' (?cmds ! 0) cleanup_world = (Inr i1, w1)"
        "returncode i1 = 0"
    and d1: "batch_dir_ready (fs w1) ?bd"
    and g1: "\<forall>p. p \<noteq> log_path ?bd ''PIE'' \<longrightarrow> map_of (fs w1) p = map_of (fs cleanup_world) p"
    by blast
  have f1: "map_of (fs w1) p = map_of cleanup_fs p"
    if "p \<noteq> [''.proofs'', ''light_0_to_10'', ''pie.log'']" for p
    using g1 that by (simp add: sample_log_paths cleanup_world_def)
  from run_and_log_frame [OF lin sp d1, of "''job''" "''BOOTLOAD''" "?cmds ! 1"] obtain i2 w2 where
    r2: "run_and_log ?ev ''job'' ?bd ''BOOTLOAD'' (?cmds ! 1) w1 = (Inr i2, w2)"
        "returncode i2 = 0"
    and d2: "batch_dir_ready (fs w2) ?bd"
    and g2: "\<forall>p. p \<noteq> log_path ?bd ''BOOTLOAD'' \<longrightarrow> map_of (fs w2) p = map_of (fs w1) p"
    by blast
  have f2: "map_of (fs w2) p = map_of (fs w1) p"
    if "p \<noteq> [''.proofs'', ''light_0_to_10'', ''bootload.log'']" for p
    using g2 that by (simp add: sample_log_paths)
  from run_and_log_frame [OF lin sp d2, of "''job''" "''PROVE''" "?cmds ! 2"] obtain i3 w3 where
    r3: "run_and_log ?ev ''job'' ?bd ''PROVE'' (?cmds ! 2) w2 = (Inr i3, w3)"
        "returncode i3 = 0"
    and g3: "\<forall>p. p \<noteq> log_path ?bd ''PROVE'' \<longrightarrow> map_of (fs w3) p = map_of (fs w2) p"
    by blast
  have f3: "map_of (fs w3) p = map_of (fs w2) p"
    if "p \<noteq> [''.proofs'', ''light_0_to_10'', ''prove.log'']" for p
    using g3 that by (simp add: sample_log_paths)
  have rp: "run_prover ?ev ''job'' ''exe'' sample_proof ''args'' cleanup_world
        = (Inr [i1, i2, i3], cleanup ?ev ?bd w3)"
    using run_prover_all_ok [of ?ev "''job''" sample_proof "''exe''" "''args''" cleanup_world
        i1 w1 i2 w2 i3 w3] r1 r2 r3
    unfolding sample_batch_dir by simp
  have n: "map_of (fs w3) p = map_of cleanup_fs p"
    if "p \<noteq> [''.proofs'', ''light_0_to_10'', ''pie.log'']"
      "p \<noteq> [''.proofs'', ''light_0_to_10'', ''bootload.log'']"
      "p \<noteq> [''.proofs'', ''light_0_to_10'', ''prove.log'']" for p
    using f1 [OF that(1)] f2 [OF that(2)] f3 [OF that(3)] by simp
  have "map_of (fs w3) [''.proofs'', ''light_0_to_10'', ''arguments.json''] = Some (File ''[]'')"
    "map_of (fs w3) [''.proofs'', ''light_0_to_10'', ''proof.json''] = Some (File ''proof'')"
    "map_of (fs w3) [''.proofs'', ''light_0_to_10'', ''pie.cairo_pie.zip''] = Some (File ''pie'')"
    "map_of (fs w3) [''.proofs'', ''light_0_to_10'', ''pub.json''] = Some (File ''pub'')"
    "map_of (fs w3) [''.proofs'', ''light_0_to_10'', ''priv.json''] = Some (File ''priv'')"
    "map_of (fs w3) [''/'', ''tmp'', ''trace.bin''] = Some (File ''trace'')"
    "map_of (fs w3) [''/'', ''tmp'', ''memory.bin''] = Some (File ''memory'')"
    by (subst n; simp add: cleanup_fs_nodes)+
  with rp r3(2) show ?thesis by blast
qed



lemma sample_temp_files:
  assumes "map_of f [''.proofs'', ''light_0_to_10'', ''priv.json''] = Some (File ''priv'')"
  shows "temp_files cleanup_env f [''.proofs'', ''light_0_to_10'']
         = [[''.proofs'', ''light_0_to_10'', ''pie.cairo_pie.zip''],
            [''.proofs'', ''light_0_to_10'', ''pub.json''],
            [''/'', ''tmp'', ''trace.bin''], [''/'', ''tmp'', ''memory.bin''],
            [''.proofs'', ''light_0_to_10'', ''priv.json'']]"
proof -
  have j: "json_load cleanup_env ''priv''
           = Inr (JObj [(''trace_path'', JStr ''/tmp/trace.bin''),
                        (''memory_path'', JStr ''/tmp/memory.bin'')])"
    by (simp add: cleanup_env_def)
  have p: "map_of f (path_div [''.proofs'', ''light_0_to_10''] ''priv.json'') = Some (File ''priv'')"
    using assms by (simp add: path_div_def)
  show ?thesis
    using temp_files_parsed [OF p j, of "''/tmp/trace.bin''" "''/tmp/memory.bin''"]
    by (simp add: path_div_def sample_tmp_paths)
qed

text \<open>
  C3 (amended).  Deleting a path means here that the driver calls \<^verbatim>\<open>unlink\<close> on it; paths
  are compared part by part, as \<^verbatim>\<open>pathlib\<close> compares them.

  When the driver returns and PROVE did not exit with 0, or was not reached, the driver
  unlinks nothing.  When PROVE exited with 0, the world returned is the world PROVE left,
  cleaned up.  After the cleanup each of the pie file, the public-input file and the
  private-input file is absent, or a warning that it could not be cleaned up has been
  logged; it is absent whenever it is not a directory and its deletion is not refused.  The
  same holds of the trace file the private-input file names, and of the memory file it names
  when the trace entry is missing or a string.  The cleanup unlinks nothing but these three
  files and the paths named under \<^verbatim>\<open>trace_path\<close> and \<^verbatim>\<open>memory_path\<close>; so the argument file and
  the proof file are not unlinked unless the private-input file names them.
\<close>

theorem cleanup_gated_on_prove:
  "(\<forall>steps w'. run_prover ev job exe proof args w = (Inr steps, w')
       \<and> \<not> (length steps = 3 \<and> returncode (last steps) = 0)
      \<longrightarrow> unlinks (new_effects w w') = [])
   \<and> (\<forall>steps w'. run_prover ev job exe proof args w = (Inr steps, w')
       \<and> length steps = 3 \<and> returncode (last steps) = 0
      \<longrightarrow> (\<exists>w2 w3. run_and_log ev job (parent (path_of_str proof)) ''PROVE''
                      (pipeline_cmds exe proof args ! 2) w2 = (Inr (last steps), w3)
                   \<and> w' = cleanup ev (parent (path_of_str proof)) w3))
   \<and> (\<forall>p \<in> {path_div bd ''pie.cairo_pie.zip'', path_div bd ''pub.json'',
              path_div bd ''priv.json''}.
         (\<not> path_exists (fs (cleanup ev bd w3)) p
          \<or> (\<exists>e. (WARNING, ''Failed to clean up '' @ path_str p @ '': '' @ exc_message e)
                   \<in> set (drop (length (logged w3)) (logged (cleanup ev bd w3)))))
         \<and> (\<not> is_dir (fs w3) p \<and> \<not> unlink_denied ev p
            \<longrightarrow> \<not> path_exists (fs (cleanup ev bd w3)) p))
   \<and> (\<forall>content kvs s.
         read_file (path_div bd ''priv.json'') (fs w3) = Inr content
         \<and> json_load ev content = Inr (JObj kvs)
         \<and> (map_of kvs ''trace_path'' = Some (JStr s)
            \<or> map_of kvs ''memory_path'' = Some (JStr s)
              \<and> (''trace_path'' \<notin> fst ` set kvs
                 \<or> (\<exists>t. map_of kvs ''trace_path'' = Some (JStr t))))
        \<longrightarrow> (\<not> path_exists (fs (cleanup ev bd w3)) (path_of_str s)
             \<or> (\<exists>e. (WARNING, ''Failed to clean up '' @ path_str (path_of_str s) @ '': ''
                               @ exc_message e)
                      \<in> set (drop (length (logged w3)) (logged (cleanup ev bd w3)))))
            \<and> (\<not> is_dir (fs w3) (path_of_str s) \<and> \<not> unlink_denied ev (path_of_str s)
               \<longrightarrow> \<not> path_exists (fs (cleanup ev bd w3)) (path_of_str s)))
   \<and> (\<forall>p \<in> set (unlinks (new_effects w3 (cleanup ev bd w3))).
         p \<in> {path_div bd ''pie.cairo_pie.zip'', path_div bd ''pub.json'',
               path_div bd ''priv.json''}
         \<or> (\<exists>content kvs k s.
               read_file (path_div bd ''priv.json'') (fs w3) = Inr content
               \<and> json_load ev content = Inr (JObj kvs)
               \<and> (k = ''trace_path'' \<or> k = ''memory_path'')
               \<and> map_of kvs k = Some (JStr s) \<and> p = path_of_str s))
   \<and> (\<forall>q \<in> {path_div bd ''arguments.json'', path_div bd ''proof.json''}.
         (\<forall>content kvs k s.
             read_file (path_div bd ''priv.json'') (fs w3) = Inr content
             \<and> json_load ev content = Inr (JObj kvs)
             \<and> (k = ''trace_path'' \<or> k = ''memory_path'')
             \<and> map_of kvs k = Some (JStr s)
            \<longrightarrow> path_of_str s \<noteq> q)
        \<longrightarrow> q \<notin> set (unlinks (new_effects w3 (cleanup ev bd w3))))"
proof -
  let ?pie = "path_div bd ''pie.cairo_pie.zip''"
  let ?pub = "path_div bd ''pub.json''"
  let ?priv = "path_div bd ''priv.json''"
  let ?C = "cleanup ev bd w3"
  have gone: "\<not> path_exists (fs ?C) p"
    if "p \<in> set (temp_files ev (fs w3) bd)" "\<not> is_dir (fs w3) p" "\<not> unlink_denied ev p" for p
    using cleanup_map_of [of ev bd w3 p] that by (auto simp: path_exists_def is_dir_def)
  have listed: "(\<not> path_exists (fs ?C) p
          \<or> (\<exists>e. (WARNING, ''Failed to clean up '' @ path_str p @ '': '' @ exc_message e)
                   \<in> set (drop (length (logged w3)) (logged ?C))))
         \<and> (\<not> is_dir (fs w3) p \<and> \<not> unlink_denied ev p \<longrightarrow> \<not> path_exists (fs ?C) p)"
    if "p \<in> set (temp_files ev (fs w3) bd)" for p
    using cleanup_absent_or_logged [OF that] gone [OF that] by blast
  have only: "p \<in> {?pie, ?pub, ?priv}
         \<or> (\<exists>content kvs k s.
               read_file ?priv (fs w3) = Inr content
               \<and> json_load ev content = Inr (JObj kvs)
               \<and> (k = ''trace_path'' \<or> k = ''memory_path'')
               \<and> map_of kvs k = Some (JStr s) \<and> p = path_of_str s)"
    if "p \<in> set (unlinks (new_effects w3 ?C))" for p
  proof -
    from cleanup_effects [of ev bd w3] that have "p \<in> set (temp_files ev (fs w3) bd)"
      by auto
    then show ?thesis by (rule temp_files_subset)
  qed
  have c1: "\<forall>steps w'. run_prover ev job exe proof args w = (Inr steps, w')
       \<and> \<not> (length steps = 3 \<and> returncode (last steps) = 0)
      \<longrightarrow> unlinks (new_effects w w') = []"
  proof (intro allI impI)
    fix steps w'
    assume a: "run_prover ev job exe proof args w = (Inr steps, w')
               \<and> \<not> (length steps = 3 \<and> returncode (last steps) = 0)"
    then have rp: "run_prover ev job exe proof args w = (Inr steps, w')" by simp
    from rp show "unlinks (new_effects w w') = []"
    proof (cases rule: run_prover_cases)
      case (pie_failed i1)
      from run_and_log_Inr(2) [OF pie_failed(1)] show ?thesis by simp
    next
      case (bootload_failed i1 w1 i2 w2)
      from run_and_log_Inr(2) [OF bootload_failed(1)] run_and_log_Inr(2) [OF bootload_failed(3)]
        bootload_failed(6)
      show ?thesis by (simp add: log_msg_def)
    next
      case (prove_failed i1 w1 i2 w2 i3)
      from run_and_log_Inr(2) [OF prove_failed(1)] run_and_log_Inr(2) [OF prove_failed(3)]
        run_and_log_Inr(2) [OF prove_failed(5)]
      show ?thesis by simp
    next
      case (all_ok i1 w1 i2 w2 i3 w3)
      with a show ?thesis by simp
    qed
  qed
  have c2: "\<forall>steps w'. run_prover ev job exe proof args w = (Inr steps, w')
       \<and> length steps = 3 \<and> returncode (last steps) = 0
      \<longrightarrow> (\<exists>w2 w3. run_and_log ev job (parent (path_of_str proof)) ''PROVE''
                      (pipeline_cmds exe proof args ! 2) w2 = (Inr (last steps), w3)
                   \<and> w' = cleanup ev (parent (path_of_str proof)) w3)"
  proof (intro allI impI)
    fix steps w'
    assume a: "run_prover ev job exe proof args w = (Inr steps, w')
               \<and> length steps = 3 \<and> returncode (last steps) = 0"
    then have rp: "run_prover ev job exe proof args w = (Inr steps, w')" by simp
    from rp show "\<exists>w2 w3. run_and_log ev job (parent (path_of_str proof)) ''PROVE''
                        (pipeline_cmds exe proof args ! 2) w2 = (Inr (last steps), w3)
                     \<and> w' = cleanup ev (parent (path_of_str proof)) w3"
    proof (cases rule: run_prover_cases)
      case (pie_failed i1)
      with a show ?thesis by simp
    next
      case (bootload_failed i1 w1 i2 w2)
      with a show ?thesis by simp
    next
      case (prove_failed i1 w1 i2 w2 i3)
      with a show ?thesis by simp
    next
      case (all_ok i1 w1 i2 w2 i3 w3)
      then show ?thesis by auto
    qed
  qed
  have c3: "\<forall>p \<in> {?pie, ?pub, ?priv}.
         (\<not> path_exists (fs ?C) p
          \<or> (\<exists>e. (WARNING, ''Failed to clean up '' @ path_str p @ '': '' @ exc_message e)
                   \<in> set (drop (length (logged w3)) (logged ?C))))
         \<and> (\<not> is_dir (fs w3) p \<and> \<not> unlink_denied ev p \<longrightarrow> \<not> path_exists (fs ?C) p)"
  proof
    fix p
    assume p: "p \<in> {?pie, ?pub, ?priv}"
    show "(\<not> path_exists (fs ?C) p
          \<or> (\<exists>e. (WARNING, ''Failed to clean up '' @ path_str p @ '': '' @ exc_message e)
                   \<in> set (drop (length (logged w3)) (logged ?C))))
         \<and> (\<not> is_dir (fs w3) p \<and> \<not> unlink_denied ev p \<longrightarrow> \<not> path_exists (fs ?C) p)"
    proof (cases "p \<in> set (temp_files ev (fs w3) bd)")
      case True
      then show ?thesis by (rule listed)
    next
      case False
      with p temp_files_fixed [where bd = bd and ev = ev and f = "fs w3"] have "\<not> path_exists (fs w3) p"
        by auto
      then have "\<not> path_exists (fs ?C) p"
        using cleanup_exists_mono by blast
      then show ?thesis by simp
    qed
  qed
  have c4: "\<forall>content kvs s.
         read_file ?priv (fs w3) = Inr content
         \<and> json_load ev content = Inr (JObj kvs)
         \<and> (map_of kvs ''trace_path'' = Some (JStr s)
            \<or> map_of kvs ''memory_path'' = Some (JStr s)
              \<and> (''trace_path'' \<notin> fst ` set kvs
                 \<or> (\<exists>t. map_of kvs ''trace_path'' = Some (JStr t))))
        \<longrightarrow> (\<not> path_exists (fs ?C) (path_of_str s)
             \<or> (\<exists>e. (WARNING, ''Failed to clean up '' @ path_str (path_of_str s) @ '': ''
                               @ exc_message e)
                      \<in> set (drop (length (logged w3)) (logged ?C))))
            \<and> (\<not> is_dir (fs w3) (path_of_str s) \<and> \<not> unlink_denied ev (path_of_str s)
               \<longrightarrow> \<not> path_exists (fs ?C) (path_of_str s))"
  proof (intro allI impI)
    fix content kvs s
    assume a: "read_file ?priv (fs w3) = Inr content
         \<and> json_load ev content = Inr (JObj kvs)
         \<and> (map_of kvs ''trace_path'' = Some (JStr s)
            \<or> map_of kvs ''memory_path'' = Some (JStr s)
              \<and> (''trace_path'' \<notin> fst ` set kvs
                 \<or> (\<exists>t. map_of kvs ''trace_path'' = Some (JStr t))))"
    then have rd: "read_file ?priv (fs w3) = Inr content"
      and jl: "json_load ev content = Inr (JObj kvs)" by simp_all
    from a have "path_of_str s \<in> set (temp_files ev (fs w3) bd)"
      using temp_files_trace [OF rd jl] temp_files_memory [OF rd jl] by blast
    then show "(\<not> path_exists (fs ?C) (path_of_str s)
             \<or> (\<exists>e. (WARNING, ''Failed to clean up '' @ path_str (path_of_str s) @ '': ''
                               @ exc_message e)
                      \<in> set (drop (length (logged w3)) (logged ?C))))
            \<and> (\<not> is_dir (fs w3) (path_of_str s) \<and> \<not> unlink_denied ev (path_of_str s)
               \<longrightarrow> \<not> path_exists (fs ?C) (path_of_str s))"
      by (rule listed)
  qed
  have c5: "\<forall>p \<in> set (unlinks (new_effects w3 ?C)).
         p \<in> {?pie, ?pub, ?priv}
         \<or> (\<exists>content kvs k s.
               read_file ?priv (fs w3) = Inr content
               \<and> json_load ev content = Inr (JObj kvs)
               \<and> (k = ''trace_path'' \<or> k = ''memory_path'')
               \<and> map_of kvs k = Some (JStr s) \<and> p = path_of_str s)"
    using only by blast
  have c6: "\<forall>q \<in> {path_div bd ''arguments.json'', path_div bd ''proof.json''}.
         (\<forall>content kvs k s.
             read_file ?priv (fs w3) = Inr content
             \<and> json_load ev content = Inr (JObj kvs)
             \<and> (k = ''trace_path'' \<or> k = ''memory_path'')
             \<and> map_of kvs k = Some (JStr s)
            \<longrightarrow> path_of_str s \<noteq> q)
        \<longrightarrow> q \<notin> set (unlinks (new_effects w3 ?C))"
  proof (intro ballI impI notI)
    fix q
    assume q: "q \<in> {path_div bd ''arguments.json'', path_div bd ''proof.json''}"
      and n: "\<forall>content kvs k s.
             read_file ?priv (fs w3) = Inr content
             \<and> json_load ev content = Inr (JObj kvs)
             \<and> (k = ''trace_path'' \<or> k = ''memory_path'')
             \<and> map_of kvs k = Some (JStr s)
            \<longrightarrow> path_of_str s \<noteq> q"
      and u: "q \<in> set (unlinks (new_effects w3 ?C))"
    from q have "q \<notin> {?pie, ?pub, ?priv}" by (auto simp: path_div_def)
    with only [OF u] n show False by blast
  qed
  show ?thesis by (intro conjI c1 c2 c3 c4 c5 c6)
qed

lemma cleanup_env_simps:
  "platform_system cleanup_env = ''Linux''"
  "subprocess_run cleanup_env c None f = (Exited [] [] 0, f, 1)"
  "unlink_denied cleanup_env p = False"
  "json_load cleanup_env content
   = Inr (JObj [(''trace_path'', JStr ''/tmp/trace.bin''),
                (''memory_path'', JStr ''/tmp/memory.bin'')])"
  by (simp_all add: cleanup_env_def quiet_env_def example_env_def)

text \<open>
  C3 as stated fails.  In the sample batch PROVE exits with 0 and the pie file is deleted,
  yet the argument file still exists when the driver returns.
\<close>

theorem argument_file_survives_success:
  "\<exists>steps w'.
     run_prover cleanup_env ''job'' ''exe'' sample_proof ''args'' cleanup_world = (Inr steps, w')
     \<and> length steps = 3 \<and> returncode (last steps) = 0
     \<and> \<not> path_exists (fs w') [''.proofs'', ''light_0_to_10'', ''pie.cairo_pie.zip'']
     \<and> path_exists (fs w') [''.proofs'', ''light_0_to_10'', ''arguments.json'']"
proof -
  let ?bd = "[''.proofs'', ''light_0_to_10'']"
  from sample_cleanup_run obtain i1 i2 i3 w3 where
    rp: "run_prover cleanup_env ''job'' ''exe'' sample_proof ''args'' cleanup_world
         = (Inr [i1, i2, i3], cleanup cleanup_env ?bd w3)"
    and rc: "returncode i3 = 0"
    and n: "map_of (fs w3) [''.proofs'', ''light_0_to_10'', ''arguments.json''] = Some (File ''[]'')"
      "map_of (fs w3) [''.proofs'', ''light_0_to_10'', ''pie.cairo_pie.zip''] = Some (File ''pie'')"
      "map_of (fs w3) [''.proofs'', ''light_0_to_10'', ''priv.json''] = Some (File ''priv'')"
    by blast
  note tf = sample_temp_files [OF n(3)]
  have "map_of (fs (cleanup cleanup_env ?bd w3)) [''.proofs'', ''light_0_to_10'', ''pie.cairo_pie.zip'']
        = None"
    unfolding cleanup_map_of tf by (simp add: is_dir_def is_top_def n cleanup_env_simps)
  moreover have "map_of (fs (cleanup cleanup_env ?bd w3)) [''.proofs'', ''light_0_to_10'', ''arguments.json'']
        = Some (File ''[]'')"
    unfolding cleanup_map_of tf by (simp add: n)
  ultimately show ?thesis using rp rc by (simp add: path_exists_def is_top_def)
qed

text \<open>
  The proof file is not protected by name either: when the private-input file names it as
  the trace file, the cleanup deletes it.
\<close>

lemma named_proof_file_is_deleted:
  "path_exists (fs cleanup_world) [''.proofs'', ''light_0_to_10'', ''proof.json'']
   \<and> \<not> path_exists (fs (cleanup proof_naming_env [''.proofs'', ''light_0_to_10''] cleanup_world))
         [''.proofs'', ''light_0_to_10'', ''proof.json'']"
proof -
  let ?bd = "[''.proofs'', ''light_0_to_10'']"
  let ?proof = "[''.proofs'', ''light_0_to_10'', ''proof.json'']"
  have rd: "read_file (path_div ?bd ''priv.json'') (fs cleanup_world) = Inr ''priv''"
    by (simp add: read_file_def path_div_def cleanup_world_def cleanup_fs_def is_dir_def
        is_top_def)
  have jl: "json_load proof_naming_env ''priv''
            = Inr (JObj [(''trace_path'', JStr ''.proofs/light_0_to_10/proof.json'')])"
    by (simp add: proof_naming_env_def)
  have ps: "path_of_str ''.proofs/light_0_to_10/proof.json'' = ?proof"
    by (simp add: path_of_str_def)
  have m: "?proof \<in> set (temp_files proof_naming_env (fs cleanup_world) ?bd)"
    using temp_files_trace [OF rd jl, of "''.proofs/light_0_to_10/proof.json''"]
    by (simp add: ps)
  have nd: "\<not> is_dir (fs cleanup_world) ?proof"
    by (simp add: is_dir_def is_top_def cleanup_world_def cleanup_fs_def)
  have dn: "\<not> unlink_denied proof_naming_env ?proof"
    by (simp add: proof_naming_env_def quiet_env_def example_env_def)
  have "map_of (fs (cleanup proof_naming_env ?bd cleanup_world)) ?proof = None"
    unfolding cleanup_map_of using m nd dn by simp
  moreover have "path_exists (fs cleanup_world) ?proof"
    by (simp add: path_exists_def cleanup_world_def cleanup_fs_def)
  ultimately show ?thesis by (simp add: path_exists_def is_top_def)
qed

theorem cleanup_gated_on_prove_witness:
  "(\<exists>i1 w'.
      run_prover (example_env ''Linux'' (\<lambda>c t f. (Exited [] ''boom'' 1, f, 1)))
        ''job'' ''exe'' sample_proof ''args'' cleanup_world = (Inr [i1], w')
      \<and> returncode i1 = 1
      \<and> unlinks (new_effects cleanup_world w') = [])
   \<and> (\<exists>i1 i2 i3 w3.
      run_prover cleanup_env ''job'' ''exe'' sample_proof ''args'' cleanup_world
        = (Inr [i1, i2, i3], cleanup cleanup_env [''.proofs'', ''light_0_to_10''] w3)
      \<and> returncode i3 = 0
      \<and> \<not> path_exists (fs (cleanup cleanup_env [''.proofs'', ''light_0_to_10''] w3))
            [''.proofs'', ''light_0_to_10'', ''pie.cairo_pie.zip'']
      \<and> \<not> path_exists (fs (cleanup cleanup_env [''.proofs'', ''light_0_to_10''] w3))
            [''.proofs'', ''light_0_to_10'', ''pub.json'']
      \<and> \<not> path_exists (fs (cleanup cleanup_env [''.proofs'', ''light_0_to_10''] w3))
            [''.proofs'', ''light_0_to_10'', ''priv.json'']
      \<and> \<not> path_exists (fs (cleanup cleanup_env [''.proofs'', ''light_0_to_10''] w3))
            [''/'', ''tmp'', ''trace.bin'']
      \<and> \<not> path_exists (fs (cleanup cleanup_env [''.proofs'', ''light_0_to_10''] w3))
            [''/'', ''tmp'', ''memory.bin'']
      \<and> [''.proofs'', ''light_0_to_10'', ''arguments.json'']
          \<notin> set (unlinks (new_effects w3 (cleanup cleanup_env [''.proofs'', ''light_0_to_10''] w3)))
      \<and> [''.proofs'', ''light_0_to_10'', ''proof.json'']
          \<notin> set (unlinks (new_effects w3 (cleanup cleanup_env [''.proofs'', ''light_0_to_10''] w3))))"
proof
  let ?ev = "example_env ''Linux'' (\<lambda>c t f. (Exited [] ''boom'' 1, f, 1))"
  let ?bd = "[''.proofs'', ''light_0_to_10'']"
  let ?cmds = "pipeline_cmds ''exe'' sample_proof ''args''"
  have "\<exists>info w'. run_and_log ?ev ''job'' ?bd ''PIE'' (?cmds ! 0) cleanup_world = (Inr info, w')
           \<and> returncode info = 1
           \<and> (\<exists>lt. fs w' = AList.update (log_path ?bd ''PIE'') (File lt) cleanup_fs)"
    by (rule run_and_log_ok)
      (simp_all add: example_env_def cleanup_world_def cleanup_fs_def is_dir_def is_top_def
        sample_log_paths)
  then obtain i1 w1 where
    r: "run_and_log ?ev ''job'' (parent (path_of_str sample_proof)) ''PIE'' (?cmds ! 0)
          cleanup_world = (Inr i1, w1)"
    and rc: "returncode i1 = 1"
    unfolding sample_batch_dir by blast
  have rp: "run_prover ?ev ''job'' ''exe'' sample_proof ''args'' cleanup_world = (Inr [i1], w1)"
    using run_prover_pie_failed [OF r] rc by simp
  have "unlinks (new_effects cleanup_world w1) = []"
    using cleanup_gated_on_prove [of ?ev "''job''" "''exe''" sample_proof "''args''"
        cleanup_world, THEN conjunct1] rp
    by auto
  with rp rc show "\<exists>i1 w'.
      run_prover ?ev ''job'' ''exe'' sample_proof ''args'' cleanup_world = (Inr [i1], w')
      \<and> returncode i1 = 1
      \<and> unlinks (new_effects cleanup_world w') = []"
    by blast
next
  let ?bd = "[''.proofs'', ''light_0_to_10'']"
  let ?pie = "[''.proofs'', ''light_0_to_10'', ''pie.cairo_pie.zip'']"
  let ?pub = "[''.proofs'', ''light_0_to_10'', ''pub.json'']"
  let ?priv = "[''.proofs'', ''light_0_to_10'', ''priv.json'']"
  let ?args = "[''.proofs'', ''light_0_to_10'', ''arguments.json'']"
  let ?proof = "[''.proofs'', ''light_0_to_10'', ''proof.json'']"
  from sample_cleanup_run obtain i1 i2 i3 w3 where
    rp: "run_prover cleanup_env ''job'' ''exe'' sample_proof ''args'' cleanup_world
         = (Inr [i1, i2, i3], cleanup cleanup_env ?bd w3)"
    and rc: "returncode i3 = 0"
    and n: "map_of (fs w3) ?pie = Some (File ''pie'')"
      "map_of (fs w3) ?pub = Some (File ''pub'')"
      "map_of (fs w3) ?priv = Some (File ''priv'')"
      "map_of (fs w3) [''/'', ''tmp'', ''trace.bin''] = Some (File ''trace'')"
      "map_of (fs w3) [''/'', ''tmp'', ''memory.bin''] = Some (File ''memory'')"
    by blast
  let ?C = "cleanup cleanup_env ?bd w3"
  note g = cleanup_gated_on_prove [of cleanup_env "''job''" "''exe''" sample_proof "''args''"
      cleanup_world ?bd w3]
  note g3 = g [THEN conjunct2, THEN conjunct2, THEN conjunct1]
  note g4 = g [THEN conjunct2, THEN conjunct2, THEN conjunct2, THEN conjunct1]
  note g6 = g [THEN conjunct2, THEN conjunct2, THEN conjunct2, THEN conjunct2, THEN conjunct2]
  have nd: "\<not> is_dir (fs w3) ?pie" "\<not> is_dir (fs w3) ?pub" "\<not> is_dir (fs w3) ?priv"
    "\<not> is_dir (fs w3) [''/'', ''tmp'', ''trace.bin'']"
    "\<not> is_dir (fs w3) [''/'', ''tmp'', ''memory.bin'']"
    by (simp_all add: is_dir_def is_top_def n)
  have rd: "read_file (path_div ?bd ''priv.json'') (fs w3) = Inr ''priv''"
    using nd(3) by (simp add: read_file_def path_div_def n)
  have a: "\<not> path_exists (fs ?C) ?pie"
    using g3 nd(1) by (simp add: path_div_def cleanup_env_simps)
  have b: "\<not> path_exists (fs ?C) ?pub"
    using g3 nd(2) by (simp add: path_div_def cleanup_env_simps)
  have c: "\<not> path_exists (fs ?C) ?priv"
    using g3 nd(3) by (simp add: path_div_def cleanup_env_simps)
  have d: "\<not> path_exists (fs ?C) [''/'', ''tmp'', ''trace.bin'']"
    using g4 [rule_format, of "''priv''" "[(''trace_path'', JStr ''/tmp/trace.bin''),
                (''memory_path'', JStr ''/tmp/memory.bin'')]" "''/tmp/trace.bin''"]
      rd nd(4)
    by (simp add: cleanup_env_simps sample_tmp_paths)
  have e: "\<not> path_exists (fs ?C) [''/'', ''tmp'', ''memory.bin'']"
    using g4 [rule_format, of "''priv''" "[(''trace_path'', JStr ''/tmp/trace.bin''),
                (''memory_path'', JStr ''/tmp/memory.bin'')]" "''/tmp/memory.bin''"]
      rd nd(5)
    by (simp add: cleanup_env_simps sample_tmp_paths)
  have named: "path_of_str s \<noteq> q"
    if "q = ?args \<or> q = ?proof"
      "read_file (path_div ?bd ''priv.json'') (fs w3) = Inr content
       \<and> json_load cleanup_env content = Inr (JObj kvs)
       \<and> (k = ''trace_path'' \<or> k = ''memory_path'')
       \<and> map_of kvs k = Some (JStr s)" for q content kvs k s
    using that by (auto simp: cleanup_env_simps sample_tmp_paths)
  have f: "?args \<notin> set (unlinks (new_effects w3 ?C))"
    using g6 [rule_format, of ?args] named [of ?args] by (simp add: path_div_def) blast
  have h: "?proof \<notin> set (unlinks (new_effects w3 ?C))"
    using g6 [rule_format, of ?proof] named [of ?proof] by (simp add: path_div_def) blast
  from rp rc a b c d e f h show "\<exists>i1 i2 i3 w3.
      run_prover cleanup_env ''job'' ''exe'' sample_proof ''args'' cleanup_world
        = (Inr [i1, i2, i3], cleanup cleanup_env ?bd w3)
      \<and> returncode i3 = 0
      \<and> \<not> path_exists (fs (cleanup cleanup_env ?bd w3)) ?pie
      \<and> \<not> path_exists (fs (cleanup cleanup_env ?bd w3)) ?pub
      \<and> \<not> path_exists (fs (cleanup cleanup_env ?bd w3)) ?priv
      \<and> \<not> path_exists (fs (cleanup cleanup_env ?bd w3)) [''/'', ''tmp'', ''trace.bin'']
      \<and> \<not> path_exists (fs (cleanup cleanup_env ?bd w3)) [''/'', ''tmp'', ''memory.bin'']
      \<and> ?args \<notin> set (unlinks (new_effects w3 (cleanup cleanup_env ?bd w3)))
      \<and> ?proof \<notin> set (unlinks (new_effects w3 (cleanup cleanup_env ?bd w3)))"
    by blast
qed


end
